theory Spec2Isabelle
  imports Complex_Main "HOL-Library.Word"
begin

section \<open>Bytes, strings and Python exceptions\<close>

text \<open>
  A Python \<^verbatim>\<open>bytes\<close> object is a list of 8-bit words. Strings are ASCII strings
  (every key, address and literal of the signing pipeline is ASCII), so a character
  and its UTF-8 byte coincide. An exception raised by the Python code is a value
  \<open>Inl e\<close> of the result type \<open>error + 'a\<close>.
\<close>

type_synonym byte = "8 word"
type_synonym bytes = "byte list"

datatype error =
    OverflowError | ValueError | TypeError | AttributeError
  | UnboundLocalError | RequestException | JSONDecodeError | KeyError
  | ZeroDivisionError

definition bind_res :: "error + 'a \<Rightarrow> ('a \<Rightarrow> error + 'b) \<Rightarrow> error + 'b" where
  "bind_res r f = (case r of Inl e \<Rightarrow> Inl e | Inr x \<Rightarrow> f x)"

text \<open>Running a list of fallible computations in order; the first exception wins.\<close>

fun collect :: "(error + 'a) list \<Rightarrow> error + 'a list" where
  "collect [] = Inr []"
| "collect (r # rs) =
     (case r of Inl e \<Rightarrow> Inl e
      | Inr x \<Rightarrow> (case collect rs of Inl e \<Rightarrow> Inl e | Inr xs \<Rightarrow> Inr (x # xs)))"

text \<open>\<open>be k n\<close>: the \<open>k\<close> low-order bytes of \<open>n\<close>, most significant first.\<close>

fun be :: "nat \<Rightarrow> int \<Rightarrow> bytes" where
  "be 0 n = []"
| "be (Suc k) n = be k (n div 256) @ [of_int n]"

text \<open>The value a byte string denotes when read as a big-endian unsigned number.\<close>

definition be_value :: "bytes \<Rightarrow> int" where
  "be_value bs = foldl (\<lambda>acc b. 256 * acc + uint b) 0 bs"

text \<open>
  \<^verbatim>\<open>n.to_bytes(length, "big")\<close>: raises \<^verbatim>\<open>OverflowError\<close> for a negative integer
  and for one that does not fit.
\<close>

definition to_bytes_big :: "nat \<Rightarrow> int \<Rightarrow> error + bytes" where
  "to_bytes_big len n =
     (if n < 0 \<or> 2 ^ (8 * len) \<le> n then Inl OverflowError
      else Inr (be len n))"

definition hexval :: "char \<Rightarrow> nat option" where
  "hexval c =
     (let n = (of_char c :: nat) in
      if 48 \<le> n \<and> n \<le> 57 then Some (n - 48)
      else if 97 \<le> n \<and> n \<le> 102 then Some (n - 87)
      else if 65 \<le> n \<and> n \<le> 70 then Some (n - 55)
      else None)"

definition is_space :: "char \<Rightarrow> bool" where
  "is_space c = (let n = (of_char c :: nat) in n = 32 \<or> (9 \<le> n \<and> n \<le> 13))"

text \<open>
  \<^verbatim>\<open>bytes.fromhex\<close>: ASCII whitespace before a pair of digits is skipped, then two hex
  digits make one byte; anything else raises \<^verbatim>\<open>ValueError\<close>.
\<close>

fun fromhex :: "string \<Rightarrow> error + bytes" where
  "fromhex [] = Inr []"
| "fromhex [c] = (if is_space c then Inr [] else Inl ValueError)"
| "fromhex (c # d # cs) =
     (if is_space c then fromhex (d # cs)
      else (case (hexval c, hexval d) of
              (Some h, Some l) \<Rightarrow>
                (case fromhex cs of Inl e \<Rightarrow> Inl e
                 | Inr bs \<Rightarrow> Inr (of_nat (16 * h + l) # bs))
            | _ \<Rightarrow> Inl ValueError))"

definition lower_char :: "char \<Rightarrow> char" where
  "lower_char c =
     (let n = (of_char c :: nat) in if 65 \<le> n \<and> n \<le> 90 then char_of (n + 32) else c)"

definition lower :: "string \<Rightarrow> string" where
  "lower s = map lower_char s"

definition hexdigit :: "nat \<Rightarrow> char" where
  "hexdigit n = (if n < 10 then char_of (48 + n) else char_of (87 + n))"

definition hex_byte :: "byte \<Rightarrow> string" where
  "hex_byte b = [hexdigit (unat b div 16), hexdigit (unat b mod 16)]"

text \<open>\<^verbatim>\<open>bytes.hex()\<close>: two lowercase hex digits per byte.\<close>

definition bytes_hex :: "bytes \<Rightarrow> string" where
  "bytes_hex bs = concat (map hex_byte bs)"

section \<open>The action serialisation (msgpack)\<close>

text \<open>
  The values an action is built from: \<^verbatim>\<open>None\<close>, booleans, integers, strings, lists
  and dictionaries with string keys. A dictionary is the list of its items in
  insertion order, which is the order Python iterates it in. Floats do not occur in
  an action (prices and sizes travel as strings) and are not part of the model.
\<close>

datatype pyval =
    PNone | PBool bool | PInt int | PStr string
  | PList "pyval list" | PDict "(string \<times> pyval) list"

text \<open>
  \<^verbatim>\<open>msgpack.packb\<close> is a library call. The definitions below follow the MessagePack
  wire format as the packer emits it with its default options: the shortest integer
  format, \<^verbatim>\<open>str\<close> formats for text, array and map headers followed by the items in
  iteration order, and a nesting limit of 511 below the top level.
\<close>

definition pack_int :: "int \<Rightarrow> error + bytes" where
  "pack_int n =
     (if 0 \<le> n then
        (if n < 2 ^ 7 then Inr [of_int n]
         else if n < 2 ^ 8 then Inr (0xcc # be 1 n)
         else if n < 2 ^ 16 then Inr (0xcd # be 2 n)
         else if n < 2 ^ 32 then Inr (0xce # be 4 n)
         else if n < 2 ^ 64 then Inr (0xcf # be 8 n)
         else Inl OverflowError)
      else
        (if - (2 ^ 5) \<le> n then Inr [of_int n]
         else if - (2 ^ 7) \<le> n then Inr (0xd0 # be 1 (n + 2 ^ 8))
         else if - (2 ^ 15) \<le> n then Inr (0xd1 # be 2 (n + 2 ^ 16))
         else if - (2 ^ 31) \<le> n then Inr (0xd2 # be 4 (n + 2 ^ 32))
         else if - (2 ^ 63) \<le> n then Inr (0xd3 # be 8 (n + 2 ^ 64))
         else Inl OverflowError))"

definition utf8 :: "string \<Rightarrow> bytes" where
  "utf8 s = map (\<lambda>c. of_nat (of_char c)) s"

definition pack_str :: "string \<Rightarrow> error + bytes" where
  "pack_str s =
     (let n = length s in
      if n < 32 then Inr (of_nat (160 + n) # utf8 s)
      else if n < 2 ^ 8 then Inr (0xd9 # be 1 (int n) @ utf8 s)
      else if n < 2 ^ 16 then Inr (0xda # be 2 (int n) @ utf8 s)
      else if n < 2 ^ 32 then Inr (0xdb # be 4 (int n) @ utf8 s)
      else Inl ValueError)"

definition array_header :: "nat \<Rightarrow> error + bytes" where
  "array_header n =
     (if n < 16 then Inr [of_nat (144 + n)]
      else if n < 2 ^ 16 then Inr (0xdc # be 2 (int n))
      else if n < 2 ^ 32 then Inr (0xdd # be 4 (int n))
      else Inl ValueError)"

definition map_header :: "nat \<Rightarrow> error + bytes" where
  "map_header n =
     (if n < 16 then Inr [of_nat (128 + n)]
      else if n < 2 ^ 16 then Inr (0xde # be 2 (int n))
      else if n < 2 ^ 32 then Inr (0xdf # be 4 (int n))
      else Inl ValueError)"

text \<open>
  \<open>pack d v\<close> packs \<open>v\<close> with \<open>d\<close> levels of nesting still allowed; the packer raises
  \<^verbatim>\<open>ValueError\<close> when the limit is used up. The header is checked first, then the
  items are packed in order, a key before its value.
\<close>

primrec pack :: "nat \<Rightarrow> pyval \<Rightarrow> error + bytes" where
  "pack 0 v = Inl ValueError"
| "pack (Suc d) v =
     (case v of
        PNone \<Rightarrow> Inr [0xc0]
      | PBool b \<Rightarrow> Inr [if b then 0xc3 else 0xc2]
      | PInt n \<Rightarrow> pack_int n
      | PStr s \<Rightarrow> pack_str s
      | PList xs \<Rightarrow>
          bind_res (array_header (length xs)) (\<lambda>h.
          bind_res (collect (map (pack d) xs)) (\<lambda>bs. Inr (h @ concat bs)))
      | PDict kvs \<Rightarrow>
          bind_res (map_header (length kvs)) (\<lambda>h.
          bind_res (collect (map (\<lambda>(k, x).
              bind_res (pack_str k) (\<lambda>kb.
              bind_res (pack d x) (\<lambda>xb. Inr (kb @ xb)))) kvs))
            (\<lambda>bs. Inr (h @ concat bs))))"

definition msgpack_packb :: "pyval \<Rightarrow> error + bytes" where
  "msgpack_packb v = pack 512 v"

section \<open>The signing pipeline of \<^verbatim>\<open>hyperliquid_minimal_order.py\<close>\<close>

text \<open>
  The library calls of the pipeline are parameters of the model: the Keccak-256
  digest, \<^verbatim>\<open>encode_typed_data\<close>, \<^verbatim>\<open>Account.from_key\<close> and the account's
  \<^verbatim>\<open>sign_message\<close>, which returns the integers \<open>r\<close>, \<open>s\<close> and \<open>v\<close>. The types of an
  account (\<open>'w\<close>) and of an encoded signable message (\<open>'m\<close>) are left open. The
  last parameter is Python's \<^verbatim>\<open>float\<close> applied to a string: the number it denotes, or
  \<open>None\<close> where \<^verbatim>\<open>float\<close> raises \<^verbatim>\<open>ValueError\<close>.
\<close>

record phantom_agent =
  source :: string
  connectionId :: string

record eip712_domain =
  chainId :: int
  name :: string
  verifyingContract :: string
  version :: string

record typed_data =
  domain :: eip712_domain
  types :: "(string \<times> (string \<times> string) list) list"
  primaryType :: string
  message :: phantom_agent

record signature =
  sig_r :: string
  sig_s :: string
  sig_v :: int

record ('w, 'm) lib =
  keccak256 :: "bytes \<Rightarrow> bytes"
  encode_typed_data :: "typed_data \<Rightarrow> error + 'm"
  from_key :: "string \<Rightarrow> error + 'w"
  sign_message :: "'w \<Rightarrow> 'm \<Rightarrow> error + (int \<times> int \<times> int)"
  float_of_str :: "string \<Rightarrow> rat option"

definition address_to_bytes :: "string \<Rightarrow> error + bytes" where
  "address_to_bytes address = fromhex (lower (drop 2 address))"

definition action_hash ::
  "('w, 'm) lib \<Rightarrow> pyval \<Rightarrow> string option \<Rightarrow> int \<Rightarrow> int option \<Rightarrow> error + bytes" where
  "action_hash L action vault_address nonce expires_after =
     bind_res (msgpack_packb action) (\<lambda>data.
     bind_res (to_bytes_big 8 nonce) (\<lambda>n8.
     bind_res (case vault_address of
                 None \<Rightarrow> Inr (data @ n8 @ [0x00])
               | Some a \<Rightarrow> bind_res (address_to_bytes a) (\<lambda>ab. Inr (data @ n8 @ [0x01] @ ab)))
       (\<lambda>data.
     bind_res (case expires_after of
                 None \<Rightarrow> Inr data
               | Some e \<Rightarrow> bind_res (to_bytes_big 8 e) (\<lambda>e8. Inr (data @ [0x00] @ e8)))
       (\<lambda>data. Inr (keccak256 L data)))))"

definition construct_phantom_agent :: "bytes \<Rightarrow> bool \<Rightarrow> phantom_agent" where
  "construct_phantom_agent hash_bytes is_mainnet =
     \<lparr>source = (if is_mainnet then ''a'' else ''b''),
      connectionId = ''0x'' @ bytes_hex hash_bytes\<rparr>"

definition l1_payload :: "phantom_agent \<Rightarrow> typed_data" where
  "l1_payload agent =
     \<lparr>domain = \<lparr>chainId = 1337, name = ''Exchange'',
                verifyingContract = ''0x0000000000000000000000000000000000000000'',
                version = ''1''\<rparr>,
      types = [(''Agent'', [(''source'', ''string''), (''connectionId'', ''bytes32'')]),
               (''EIP712Domain'', [(''name'', ''string''), (''version'', ''string''),
                                   (''chainId'', ''uint256''),
                                   (''verifyingContract'', ''address'')])],
      primaryType = ''Agent'',
      message = agent\<rparr>"

text \<open>
  Python's \<^verbatim>\<open>hex\<close> of an integer: a minus sign if it is negative, \<^verbatim>\<open>0x\<close>, and the
  digits of its absolute value with no leading zero.
\<close>

function hex_digits :: "int \<Rightarrow> string" where
  "hex_digits n =
     (if n < 16 then [hexdigit (nat n)]
      else hex_digits (n div 16) @ [hexdigit (nat (n mod 16))])"
  by pat_completeness auto
termination
  by (relation "measure nat") auto

definition py_hex :: "int \<Rightarrow> string" where
  "py_hex n = (if n < 0 then ''-0x'' @ hex_digits (- n) else ''0x'' @ hex_digits n)"

definition sign_l1_action_exact ::
  "('w, 'm) lib \<Rightarrow> 'w \<Rightarrow> pyval \<Rightarrow> string option \<Rightarrow> int \<Rightarrow> int option \<Rightarrow> bool
     \<Rightarrow> error + signature" where
  "sign_l1_action_exact L wallet action vault_address nonce expires_after is_mainnet =
     bind_res (action_hash L action vault_address nonce expires_after) (\<lambda>hash_bytes.
     let agent = construct_phantom_agent hash_bytes is_mainnet;
         data = l1_payload agent
     in bind_res (encode_typed_data L data) (\<lambda>structured_data.
        bind_res (sign_message L wallet structured_data) (\<lambda>(r, s, v).
        Inr \<lparr>sig_r = py_hex r, sig_s = py_hex s, sig_v = v\<rparr>)))"

text \<open>A vault address the hash accepts: two characters and forty hex digits.\<close>

definition address_ok :: "string \<Rightarrow> bool" where
  "address_ok a = (length a = 42 \<and> list_all (\<lambda>c. hexval c \<noteq> None) (drop 2 a))"

definition u64_ok :: "int \<Rightarrow> bool" where
  "u64_ok n = (0 \<le> n \<and> n < 2 ^ 64)"

section \<open>The environment of the bot\<close>

text \<open>
  The bot talks to the exchange with \<^verbatim>\<open>requests.post\<close>, reads the clock and writes
  to a logger. The environment is an explicit state: the answers the network will
  give to the next requests, the requests posted so far, the log, and the clock in
  milliseconds. A response is either an exception of \<^verbatim>\<open>requests.post\<close> or a status
  code with the body as \<^verbatim>\<open>response.json()\<close> would parse it (\<open>None\<close> when the body
  is not JSON and the parse raises).
\<close>

datatype level = INFO | WARNING | ERROR

datatype response = Raises | Response int "pyval option"

record world =
  responses :: "response list"
  sent :: "(string \<times> pyval) list"
  log :: "(level \<times> string) list"
  now_ms :: int

definition logger :: "level \<Rightarrow> string \<Rightarrow> world \<Rightarrow> world" where
  "logger l msg w = w\<lparr>log := log w @ [(l, msg)]\<rparr>"

record bot =
  private_key :: string
  wallet_address :: string
  base_url :: string

section \<open>The signing method of \<^verbatim>\<open>HyperliquidTradingBotExecutable\<close>\<close>

text \<open>
  The method carries its own copies of the four helper functions as nested
  definitions; they are modelled separately from the ones of the script.
\<close>

definition bot_address_to_bytes :: "string \<Rightarrow> error + bytes" where
  "bot_address_to_bytes address = fromhex (lower (drop 2 address))"

definition bot_action_hash ::
  "('w, 'm) lib \<Rightarrow> pyval \<Rightarrow> string option \<Rightarrow> int \<Rightarrow> int option \<Rightarrow> error + bytes" where
  "bot_action_hash L action vault_address nonce expires_after =
     bind_res (msgpack_packb action) (\<lambda>data.
     bind_res (to_bytes_big 8 nonce) (\<lambda>n8.
     bind_res (case vault_address of
                 None \<Rightarrow> Inr (data @ n8 @ [0x00])
               | Some a \<Rightarrow>
                   bind_res (bot_address_to_bytes a) (\<lambda>ab. Inr (data @ n8 @ [0x01] @ ab)))
       (\<lambda>data.
     bind_res (case expires_after of
                 None \<Rightarrow> Inr data
               | Some e \<Rightarrow> bind_res (to_bytes_big 8 e) (\<lambda>e8. Inr (data @ [0x00] @ e8)))
       (\<lambda>data. Inr (keccak256 L data)))))"

definition bot_construct_phantom_agent :: "bytes \<Rightarrow> bool \<Rightarrow> phantom_agent" where
  "bot_construct_phantom_agent hash_bytes is_mainnet =
     \<lparr>source = (if is_mainnet then ''a'' else ''b''),
      connectionId = ''0x'' @ bytes_hex hash_bytes\<rparr>"

definition bot_l1_payload :: "phantom_agent \<Rightarrow> typed_data" where
  "bot_l1_payload agent =
     \<lparr>domain = \<lparr>chainId = 1337, name = ''Exchange'',
                verifyingContract = ''0x0000000000000000000000000000000000000000'',
                version = ''1''\<rparr>,
      types = [(''Agent'', [(''source'', ''string''), (''connectionId'', ''bytes32'')]),
               (''EIP712Domain'', [(''name'', ''string''), (''version'', ''string''),
                                   (''chainId'', ''uint256''),
                                   (''verifyingContract'', ''address'')])],
      primaryType = ''Agent'',
      message = agent\<rparr>"

text \<open>
  The method builds the account from the bot's private key, logs two lines, and then
  hashes, wraps and signs. An exception leaves the environment as it was when it was
  raised.
\<close>

definition bot_sign_l1_action_exact ::
  "('w, 'm) lib \<Rightarrow> bot \<Rightarrow> pyval \<Rightarrow> string option \<Rightarrow> int \<Rightarrow> int option \<Rightarrow> bool
     \<Rightarrow> world \<Rightarrow> (error + signature) \<times> world" where
  "bot_sign_l1_action_exact L self action vault_address nonce expires_after is_mainnet w =
     (case from_key L (private_key self) of
        Inl e \<Rightarrow> (Inl e, w)
      | Inr account \<Rightarrow>
          let w1 = logger INFO ''Wallet generada desde private key'' w;
              w2 = logger INFO ''Wallet address esperada'' w1
          in (bind_res (bot_action_hash L action vault_address nonce expires_after)
                (\<lambda>hash_bytes.
                 let agent = bot_construct_phantom_agent hash_bytes is_mainnet;
                     data = bot_l1_payload agent
                 in bind_res (encode_typed_data L data) (\<lambda>structured_data.
                    bind_res (sign_message L account structured_data) (\<lambda>(r, s, v).
                    Inr \<lparr>sig_r = py_hex r, sig_s = py_hex s, sig_v = v\<rparr>))),
              w2))"

section \<open>Python values as the bot reads them\<close>

text \<open>
  A JSON body parses to the same values an action is built from. The operations
  below are the ones the bot applies to such values; each raises what Python raises
  on a value of the wrong type.
\<close>

text \<open>\<^verbatim>\<open>d.get(k)\<close>: only a dictionary has the method.\<close>

definition py_get :: "pyval \<Rightarrow> string \<Rightarrow> error + pyval option" where
  "py_get d k = (case d of PDict kvs \<Rightarrow> Inr (map_of kvs k) | _ \<Rightarrow> Inl AttributeError)"

text \<open>\<^verbatim>\<open>d.get(k, default)\<close>.\<close>

definition py_get_default :: "pyval \<Rightarrow> string \<Rightarrow> pyval \<Rightarrow> error + pyval" where
  "py_get_default d k dflt =
     bind_res (py_get d k) (\<lambda>r. Inr (case r of None \<Rightarrow> dflt | Some v \<Rightarrow> v))"

text \<open>\<^verbatim>\<open>d[k]\<close> with a string \<open>k\<close>.\<close>

definition py_getitem :: "pyval \<Rightarrow> string \<Rightarrow> error + pyval" where
  "py_getitem d k =
     (case d of
        PDict kvs \<Rightarrow> (case map_of kvs k of None \<Rightarrow> Inl KeyError | Some v \<Rightarrow> Inr v)
      | _ \<Rightarrow> Inl TypeError)"

text \<open>
  \<^verbatim>\<open>for x in v\<close>: a list yields its items, a dictionary its keys, a string its
  characters; nothing else is iterable.
\<close>

definition py_iter :: "pyval \<Rightarrow> error + pyval list" where
  "py_iter v =
     (case v of
        PList xs \<Rightarrow> Inr xs
      | PDict kvs \<Rightarrow> Inr (map (\<lambda>kv. PStr (fst kv)) kvs)
      | PStr s \<Rightarrow> Inr (map (\<lambda>c. PStr [c]) s)
      | _ \<Rightarrow> Inl TypeError)"

definition py_truthy :: "pyval \<Rightarrow> bool" where
  "py_truthy v =
     (case v of
        PNone \<Rightarrow> False
      | PBool b \<Rightarrow> b
      | PInt n \<Rightarrow> n \<noteq> 0
      | PStr s \<Rightarrow> s \<noteq> []
      | PList xs \<Rightarrow> xs \<noteq> []
      | PDict kvs \<Rightarrow> kvs \<noteq> [])"

fun contains_str :: "string \<Rightarrow> string \<Rightarrow> bool" where
  "contains_str p [] = (p = [])"
| "contains_str p (c # cs) = (take (length p) (c # cs) = p \<or> contains_str p cs)"

text \<open>
  \<^verbatim>\<open>k in v\<close> with a string \<open>k\<close>: a key of a dictionary, an item of a list, a substring
  of a string; \<^verbatim>\<open>TypeError\<close> on anything else.
\<close>

definition py_in :: "string \<Rightarrow> pyval \<Rightarrow> error + bool" where
  "py_in k v =
     (case v of
        PDict kvs \<Rightarrow> Inr (k \<in> set (map fst kvs))
      | PList xs \<Rightarrow> Inr (PStr k \<in> set xs)
      | PStr s \<Rightarrow> Inr (contains_str k s)
      | _ \<Rightarrow> Inl TypeError)"

text \<open>
  Floats are modelled by the rational numbers they stand for, and float arithmetic by
  exact arithmetic; infinities and NaN are not modelled. \<^verbatim>\<open>float(v)\<close>:
\<close>

definition py_float :: "('w, 'm) lib \<Rightarrow> pyval \<Rightarrow> error + rat" where
  "py_float L v =
     (case v of
        PStr s \<Rightarrow> (case float_of_str L s of None \<Rightarrow> Inl ValueError | Some x \<Rightarrow> Inr x)
      | PInt n \<Rightarrow> Inr (of_int n)
      | PBool b \<Rightarrow> Inr (if b then 1 else 0)
      | _ \<Rightarrow> Inl TypeError)"

text \<open>\<^verbatim>\<open>round(x)\<close>: to the nearest integer, a tie to the even one.\<close>

definition py_round :: "rat \<Rightarrow> int" where
  "py_round x =
     (let f = \<lfloor>x\<rfloor>; r = x - of_int f in
      if r < 1 / 2 then f
      else if 1 / 2 < r then f + 1
      else if even f then f else f + 1)"

text \<open>
  A number that is an \<^verbatim>\<open>int\<close> or a \<^verbatim>\<open>float\<close>; the product of an \<^verbatim>\<open>int\<close> and such
  a number.
\<close>

datatype pynum = PyInt int | PyFloat rat

definition num_value :: "pynum \<Rightarrow> rat" where
  "num_value t = (case t of PyInt i \<Rightarrow> of_int i | PyFloat x \<Rightarrow> x)"

definition int_times :: "int \<Rightarrow> pynum \<Rightarrow> pynum" where
  "int_times n t = (case t of PyInt i \<Rightarrow> PyInt (n * i) | PyFloat x \<Rightarrow> PyFloat (of_int n * x))"

text \<open>
  A float that is printed is represented by the decimal it prints as: \<open>Dec m k\<close> is
  \<open>m / 10 ^ k\<close>. The result of \<^verbatim>\<open>round(x, ndigits)\<close> on a float is such a decimal; on
  an \<^verbatim>\<open>int\<close> (with \<open>ndigits \<ge> 0\<close>) it is the \<^verbatim>\<open>int\<close> itself.
\<close>

datatype decimal = Dec int nat

definition dec_value :: "decimal \<Rightarrow> rat" where
  "dec_value d = (case d of Dec m k \<Rightarrow> of_int m / 10 ^ k)"

datatype pyprice = PriceInt int | PriceFloat decimal

definition price_value :: "pyprice \<Rightarrow> rat" where
  "price_value p = (case p of PriceInt i \<Rightarrow> of_int i | PriceFloat d \<Rightarrow> dec_value d)"

definition round_ndigits :: "pynum \<Rightarrow> nat \<Rightarrow> pyprice" where
  "round_ndigits v ndigits =
     (case v of
        PyInt i \<Rightarrow> PriceInt i
      | PyFloat x \<Rightarrow> PriceFloat (Dec (py_round (x * 10 ^ ndigits)) ndigits))"

text \<open>\<^verbatim>\<open>int(x)\<close> on a float: truncation towards zero.\<close>

definition dec_trunc :: "decimal \<Rightarrow> int" where
  "dec_trunc d = (case d of Dec m k \<Rightarrow> sgn m * (\<bar>m\<bar> div 10 ^ k))"

text \<open>The decimal digits of a non-negative integer.\<close>

function digits10 :: "int \<Rightarrow> string" where
  "digits10 n =
     (if n < 10 then [char_of (48 + n)] else digits10 (n div 10) @ [char_of (48 + n mod 10)])"
  by pat_completeness auto
termination
  by (relation "measure nat") auto

text \<open>\<^verbatim>\<open>str\<close> of an \<^verbatim>\<open>int\<close>.\<close>

definition int_str :: "int \<Rightarrow> string" where
  "int_str i = (if i < 0 then ''-'' @ digits10 (- i) else digits10 i)"

fun normalise :: "int \<Rightarrow> nat \<Rightarrow> int \<times> nat" where
  "normalise m 0 = (m, 0)"
| "normalise m (Suc k) = (if m mod 10 = 0 then normalise (m div 10) k else (m, Suc k))"

definition strip_trailing_zeros :: "string \<Rightarrow> string" where
  "strip_trailing_zeros ds = rev (dropWhile (\<lambda>c. c = CHR ''0'') (rev ds))"

text \<open>
  \<^verbatim>\<open>str\<close> of a float, which is its \<^verbatim>\<open>repr\<close>: the digits with a decimal point and
  at least one digit after it, or scientific notation with an exponent of at least
  two digits when the decimal point would stand four or more places before the first
  digit or more than sixteen places after it.
\<close>

definition dec_str :: "decimal \<Rightarrow> string" where
  "dec_str d =
     (case d of Dec m0 k0 \<Rightarrow>
        (case normalise m0 k0 of (m, k) \<Rightarrow>
           let ds = digits10 \<bar>m\<bar>;
               decpt = int (length ds) - int k;
               sign = (if m < 0 then ''-'' else '''')
           in if m = 0 then ''0.0''
              else if decpt \<le> - 4 \<or> 16 < decpt then
                (let sig = strip_trailing_zeros ds;
                     e = digits10 \<bar>decpt - 1\<bar>
                 in sign @ [hd sig] @ (if tl sig = [] then '''' else ''.'' @ tl sig)
                    @ ''e'' @ (if decpt - 1 < 0 then ''-'' else ''+'')
                    @ (if length e < 2 then ''0'' @ e else e))
              else if decpt \<le> 0 then
                sign @ ''0.'' @ replicate (nat (- decpt)) (CHR ''0'') @ ds
              else if k = 0 then sign @ ds @ ''.0''
              else sign @ take (nat decpt) ds @ ''.'' @ drop (nat decpt) ds))"

definition price_str :: "pyprice \<Rightarrow> string" where
  "price_str p = (case p of PriceInt i \<Rightarrow> int_str i | PriceFloat d \<Rightarrow> dec_str d)"

section \<open>Effects: requests, logging and exceptions\<close>

type_synonym 'a io = "world \<Rightarrow> (error + 'a) \<times> world"

definition return_io :: "'a \<Rightarrow> 'a io" where
  "return_io x w = (Inr x, w)"

definition raise_io :: "error \<Rightarrow> 'a io" where
  "raise_io e w = (Inl e, w)"

definition bind_io :: "'a io \<Rightarrow> ('a \<Rightarrow> 'b io) \<Rightarrow> 'b io" where
  "bind_io m f w = (case m w of (Inl e, w') \<Rightarrow> (Inl e, w') | (Inr x, w') \<Rightarrow> f x w')"

definition lift_res :: "error + 'a \<Rightarrow> 'a io" where
  "lift_res r w = (r, w)"

text \<open>A method of the bot that catches its own exceptions and always returns.\<close>

definition lift_total :: "(world \<Rightarrow> 'a \<times> world) \<Rightarrow> 'a io" where
  "lift_total f w = (case f w of (x, w') \<Rightarrow> (Inr x, w'))"

definition log_io :: "level \<Rightarrow> string \<Rightarrow> unit io" where
  "log_io l msg w = (Inr (), logger l msg w)"

text \<open>
  \<^verbatim>\<open>requests.post(url, json=body)\<close>: the request is recorded, and the next answer of
  the network is consumed. With no answer left the call raises, as it does on a
  connection error or a timeout.
\<close>

definition requests_post :: "string \<Rightarrow> pyval \<Rightarrow> (int \<times> pyval option) io" where
  "requests_post url body w =
     (let w' = w\<lparr>sent := sent w @ [(url, body)]\<rparr> in
      case responses w of
        [] \<Rightarrow> (Inl RequestException, w')
      | r # rs \<Rightarrow>
          (case r of
             Raises \<Rightarrow> (Inl RequestException, w'\<lparr>responses := rs\<rparr>)
           | Response code b \<Rightarrow> (Inr (code, b), w'\<lparr>responses := rs\<rparr>)))"

text \<open>\<^verbatim>\<open>response.json()\<close>.\<close>

definition response_json :: "pyval option \<Rightarrow> error + pyval" where
  "response_json b = (case b of None \<Rightarrow> Inl JSONDecodeError | Some v \<Rightarrow> Inr v)"

definition info_url :: string where
  "info_url = ''https://api.hyperliquid.xyz/info''"

definition meta_request :: pyval where
  "meta_request = PDict [(''type'', PStr ''meta'')]"

definition all_mids_request :: pyval where
  "all_mids_request = PDict [(''type'', PStr ''allMids'')]"

section \<open>Asset metadata\<close>

text \<open>The loop of \<^verbatim>\<open>_get_asset_id\<close> over the enumerated universe.\<close>

fun find_asset_index :: "string \<Rightarrow> pyval list \<Rightarrow> nat \<Rightarrow> error + nat option" where
  "find_asset_index coin [] index = Inr None"
| "find_asset_index coin (asset # rest) index =
     bind_res (py_get asset ''name'') (\<lambda>n.
       if n = Some (PStr coin) then Inr (Some index)
       else find_asset_index coin rest (Suc index))"

text \<open>
  \<^verbatim>\<open>_get_asset_id\<close>: the index of the coin in the universe of the metadata answer,
  \<^verbatim>\<open>None\<close> after an error log when the coin is missing, the status is not 200 or
  anything raises.
\<close>

definition bot_get_asset_id :: "string \<Rightarrow> world \<Rightarrow> nat option \<times> world" where
  "bot_get_asset_id coin w =
     (case bind_io (requests_post info_url meta_request) (\<lambda>(code, body).
             if code = 200 then
               bind_io (lift_res
                  (bind_res (response_json body) (\<lambda>data.
                   bind_res (py_get_default data ''universe'' (PList [])) (\<lambda>universe.
                   bind_res (py_iter universe) (\<lambda>assets.
                   find_asset_index coin assets 0)))))
                 (\<lambda>found. case found of
                    Some index \<Rightarrow>
                      bind_io (log_io INFO ''Found asset ID'') (\<lambda>_. return_io (Some index))
                  | None \<Rightarrow>
                      bind_io (log_io ERROR ''Coin not found in Hyperliquid universe'')
                        (\<lambda>_. return_io None))
             else bind_io (log_io ERROR ''Failed to get asset IDs'') (\<lambda>_. return_io None)) w
      of (Inl e, w') \<Rightarrow> (None, logger ERROR ''Error getting asset ID'' w')
       | (Inr r, w') \<Rightarrow> (r, w'))"

section \<open>The limit price\<close>

text \<open>
  The loop of \<^verbatim>\<open>execute_real_order\<close> that looks the coin's mark price up. It
  returns the reference price and whether the coin was found; without a match the
  reference price stays the market price it was initialised with.
\<close>

fun find_reference_price ::
  "('w, 'm) lib \<Rightarrow> string \<Rightarrow> rat \<Rightarrow> pyval list \<Rightarrow> error + (rat \<times> bool)" where
  "find_reference_price L coin price [] = Inr (price, False)"
| "find_reference_price L coin price (asset # rest) =
     bind_res (py_get asset ''name'') (\<lambda>n.
       if n = Some (PStr coin) then
         bind_res (py_get asset ''markPx'') (\<lambda>m.
         bind_res (case m of None \<Rightarrow> Inr price | Some v \<Rightarrow> py_float L v) (\<lambda>r.
         Inr (r, True)))
       else find_reference_price L coin price rest)"

text \<open>The limit price inside the band around the reference price.\<close>

definition band_limit :: "bool \<Rightarrow> rat \<Rightarrow> rat \<Rightarrow> rat" where
  "band_limit is_buy price reference_price =
     (let max_deviation = reference_price * (5 / 100);
          limit_price =
            (if is_buy then min price (reference_price + max_deviation * (5 / 10))
             else max price (reference_price - max_deviation * (5 / 10)))
      in max (reference_price - max_deviation)
             (min limit_price (reference_price + max_deviation)))"

text \<open>
  The inner \<^verbatim>\<open>try\<close> of \<^verbatim>\<open>execute_real_order\<close>. It returns the limit price and the
  reference price; the latter is \<open>None\<close> when the variable was never assigned: after
  a status other than 200, and after an exception raised before the assignment. An
  exception raised by the loop leaves the reference price at the market price.
\<close>

definition reference_limit_price ::
  "('w, 'm) lib \<Rightarrow> string \<Rightarrow> bool \<Rightarrow> rat \<Rightarrow> world \<Rightarrow> (rat \<times> rat option) \<times> world" where
  "reference_limit_price L coin is_buy price w0 =
     (let w = logger INFO ''Getting reference price from Hyperliquid...'' w0 in
      case requests_post info_url meta_request w of
        (Inl e, w1) \<Rightarrow>
          ((price, None),
           logger WARNING ''Error getting reference price, using market price'' w1)
      | (Inr (code, body), w1) \<Rightarrow>
          if code = 200 then
            (case bind_res (response_json body) (\<lambda>data.
                    py_get_default data ''universe'' (PList [])) of
               Inl e \<Rightarrow>
                 ((price, None),
                  logger WARNING ''Error getting reference price, using market price'' w1)
             | Inr universe \<Rightarrow>
                 (case bind_res (py_iter universe) (find_reference_price L coin price) of
                    Inl e \<Rightarrow>
                      ((price, Some price),
                       logger WARNING ''Error getting reference price, using market price'' w1)
                  | Inr (reference_price, found) \<Rightarrow>
                      ((band_limit is_buy price reference_price, Some reference_price),
                       if found then logger INFO ''Hyperliquid reference price'' w1 else w1)))
          else
            ((price, None),
             logger WARNING ''Could not get reference price, using market price'' w1))"

section \<open>Tick size and precision\<close>

definition asset_id_to_coin :: "nat \<Rightarrow> string option" where
  "asset_id_to_coin = map_of [(0, ''BTC''), (1, ''ETH''), (5, ''SOL''), (7, ''BNB''), (65, ''ADA'')]"

definition default_tick_sizes :: "nat \<Rightarrow> rat option" where
  "default_tick_sizes =
     map_of [(0, 1 / 10), (1, 1 / 100), (5, 1 / 1000), (7, 1 / 100), (65, 1 / 100000)]"

definition default_precision :: "nat \<Rightarrow> nat option" where
  "default_precision = map_of [(0, 1), (1, 2), (5, 3), (7, 2), (65, 5)]"

text \<open>
  The number of decimal places of a price printed with ten decimals, after its
  trailing zeros and a trailing decimal point are stripped.
\<close>

fun strip_zero_places :: "int \<Rightarrow> nat \<Rightarrow> nat" where
  "strip_zero_places r 0 = 0"
| "strip_zero_places r (Suc k) =
     (if r mod 10 = 0 then strip_zero_places (r div 10) k else Suc k)"

definition decimal_places_of :: "rat \<Rightarrow> nat" where
  "decimal_places_of x = strip_zero_places \<bar>py_round (x * 10 ^ 10)\<bar> 10"

text \<open>
  The branch of \<^verbatim>\<open>_get_tick_size_and_precision\<close> for status 200: the tick size and
  precision read off the coin's mid price, or \<open>None\<close> when the code falls through to
  the default tables. \<^verbatim>\<open>10 ** (-decimal_places)\<close> is the \<^verbatim>\<open>int\<close> 1 for no decimal
  place and a float otherwise.
\<close>

definition market_tick ::
  "('w, 'm) lib \<Rightarrow> nat \<Rightarrow> pyval \<Rightarrow> error + (pynum \<times> nat) option" where
  "market_tick L asset_id market_data =
     (case asset_id_to_coin asset_id of
        None \<Rightarrow> Inr None
      | Some coin \<Rightarrow>
          bind_res (py_in coin market_data) (\<lambda>present.
            if present then
              bind_res (py_getitem market_data coin) (\<lambda>price_str.
                if py_truthy price_str then
                  bind_res (py_float L price_str) (\<lambda>price_float.
                    let decimal_places = decimal_places_of price_float;
                        tick_size = (if decimal_places = 0 then PyInt 1
                                     else PyFloat (1 / 10 ^ decimal_places))
                    in Inr (Some (tick_size, decimal_places)))
                else Inr None)
            else Inr None))"

definition default_tick :: "nat \<Rightarrow> pynum \<times> nat" where
  "default_tick asset_id =
     (PyFloat (case default_tick_sizes asset_id of None \<Rightarrow> 1 / 100 | Some t \<Rightarrow> t),
      (case default_precision asset_id of None \<Rightarrow> 2 | Some p \<Rightarrow> p))"

definition safe_fallback_tick :: "nat \<Rightarrow> pynum \<times> nat" where
  "safe_fallback_tick asset_id =
     (if asset_id = 65 then (PyFloat (1 / 100000), 5) else (PyFloat (1 / 100), 2))"

definition bot_get_tick_size_and_precision ::
  "('w, 'm) lib \<Rightarrow> nat \<Rightarrow> world \<Rightarrow> (pynum \<times> nat) \<times> world" where
  "bot_get_tick_size_and_precision L asset_id w =
     (case requests_post info_url all_mids_request w of
        (Inl e, w1) \<Rightarrow> (safe_fallback_tick asset_id, logger ERROR ''Error getting tick size'' w1)
      | (Inr (code, body), w1) \<Rightarrow>
          (case (if code = 200 then bind_res (response_json body) (market_tick L asset_id)
                 else Inr None) of
             Inl e \<Rightarrow> (safe_fallback_tick asset_id, logger ERROR ''Error getting tick size'' w1)
           | Inr (Some r) \<Rightarrow> (r, logger INFO ''tick_size and precision from market price'' w1)
           | Inr None \<Rightarrow> (default_tick asset_id, logger INFO ''Using market-based default'' w1)))"

text \<open>
  \<^verbatim>\<open>round(limit_price / tick_size) * tick_size\<close>, then \<^verbatim>\<open>round(limit_price, precision)\<close>.
\<close>

definition round_to_tick :: "rat \<Rightarrow> pynum \<Rightarrow> nat \<Rightarrow> error + pyprice" where
  "round_to_tick limit_price tick_size precision =
     (if num_value tick_size = 0 then Inl ZeroDivisionError
      else Inr (round_ndigits
                  (int_times (py_round (limit_price / num_value tick_size)) tick_size)
                  precision))"

section \<open>The order and its submission\<close>

definition order_action :: "string \<Rightarrow> nat \<Rightarrow> bool \<Rightarrow> pyprice \<Rightarrow> decimal \<Rightarrow> pyval" where
  "order_action coin asset_id is_buy limit_price sz =
     (let order_wire =
            (if coin = ''ADA'' then
               PDict [(''a'', PInt (int asset_id)), (''b'', PBool is_buy),
                      (''p'', PStr (price_str limit_price)),
                      (''s'', PStr (int_str (dec_trunc sz))),
                      (''r'', PBool False),
                      (''t'', PDict [(''limit'', PDict [(''tif'', PStr ''Gtc'')])])]
             else
               PDict [(''a'', PInt (int asset_id)), (''b'', PBool is_buy),
                      (''p'', PStr (price_str limit_price)),
                      (''s'', PStr (dec_str sz)),
                      (''r'', PBool False),
                      (''t'', PDict [(''limit'', PDict [(''tif'', PStr ''Gtc'')])])])
      in PDict [(''type'', PStr ''order''), (''orders'', PList [order_wire]),
                (''grouping'', PStr ''na'')])"

definition signed_payload :: "pyval \<Rightarrow> int \<Rightarrow> signature \<Rightarrow> pyval" where
  "signed_payload action nonce sg =
     PDict [(''action'', action), (''nonce'', PInt nonce),
            (''signature'', PDict [(''r'', PStr (sig_r sg)), (''s'', PStr (sig_s sg)),
                                   (''v'', PInt (sig_v sg))]),
            (''vaultAddress'', PNone)]"

text \<open>
  The loop over the per-order statuses: the first status that contains
  \<^verbatim>\<open>error\<close> ends it. The log line then reads \<^verbatim>\<open>status['error']\<close>, which raises on a
  status that is not a dictionary.
\<close>

fun has_error_status :: "pyval list \<Rightarrow> error + bool" where
  "has_error_status [] = Inr False"
| "has_error_status (status # rest) =
     bind_res (py_in ''error'' status) (\<lambda>b.
       if b then (case status of PDict kvs \<Rightarrow> Inr True | _ \<Rightarrow> Inl TypeError)
       else has_error_status rest)"

text \<open>The interpretation of the exchange's answer to an order.\<close>

definition order_result :: "int \<Rightarrow> pyval option \<Rightarrow> bool io" where
  "order_result code body =
     (if code = 200 then
        bind_io (lift_res (response_json body)) (\<lambda>result.
        bind_io (lift_res (py_get result ''status'')) (\<lambda>st.
          if st = Some (PStr ''ok'') then
            bind_io (lift_res
               (bind_res (py_get_default result ''response'' (PDict [])) (\<lambda>response_data.
                bind_res (py_get_default response_data ''data'' (PDict [])) (\<lambda>d.
                bind_res (py_get_default d ''statuses'' (PList [])) (\<lambda>statuses.
                  if py_truthy statuses then bind_res (py_iter statuses) has_error_status
                  else Inr False)))))
              (\<lambda>rejected.
                 if rejected then
                   bind_io (log_io ERROR ''Order rejected by Hyperliquid'') (\<lambda>_. return_io False)
                 else bind_io (log_io INFO ''ORDEN REAL EXITOSA!'') (\<lambda>_. return_io True))
          else bind_io (log_io ERROR ''Order failed'') (\<lambda>_. return_io False)))
      else bind_io (log_io ERROR ''HTTP Error'') (\<lambda>_. return_io False))"

text \<open>
  \<^verbatim>\<open>execute_real_order\<close> up to the finished payload: the asset id, the limit price,
  the tick size, the order action, the nonce and the signature. The result is \<open>None\<close>
  where the method returns \<^verbatim>\<open>False\<close> because the asset id is missing. The log line
  after the rounding reads the reference price and raises \<^verbatim>\<open>UnboundLocalError\<close> when
  it was never assigned.
\<close>

definition prepare_order ::
  "('w, 'm) lib \<Rightarrow> bot \<Rightarrow> string \<Rightarrow> string \<Rightarrow> decimal \<Rightarrow> rat \<Rightarrow> pyval option io" where
  "prepare_order L self coin side sz price =
     bind_io (log_io INFO ''EXECUTING REAL ORDER'') (\<lambda>_.
     bind_io (lift_total (bot_get_asset_id coin)) (\<lambda>found.
       case found of
         None \<Rightarrow> bind_io (log_io ERROR ''Could not find asset ID'') (\<lambda>_. return_io None)
       | Some asset_id \<Rightarrow>
           bind_io (lift_total (reference_limit_price L coin (lower side = ''buy'') price))
             (\<lambda>(limit_price, reference_price).
           bind_io (lift_total (bot_get_tick_size_and_precision L asset_id))
             (\<lambda>(tick_size, precision).
           bind_io (lift_res (round_to_tick limit_price tick_size precision)) (\<lambda>limit_price.
           bind_io (case reference_price of
                      None \<Rightarrow> raise_io UnboundLocalError
                    | Some r \<Rightarrow> log_io INFO ''Using limit price'') (\<lambda>_.
           bind_io (\<lambda>w. (Inr (now_ms w), w)) (\<lambda>nonce.
           bind_io (log_io INFO ''Firmando con esquema EIP-712 exacto...'') (\<lambda>_.
           bind_io (bot_sign_l1_action_exact L self
                      (order_action coin asset_id (lower side = ''buy'') limit_price sz)
                      None nonce None True) (\<lambda>sg.
           bind_io (log_io INFO ''Firma EIP-712 generada correctamente'') (\<lambda>_.
           bind_io (log_io INFO ''Payload completo'') (\<lambda>_.
           return_io (Some (signed_payload
              (order_action coin asset_id (lower side = ''buy'') limit_price sz)
              nonce sg)))))))))))))"

text \<open>The post to the exchange and the reading of its answer.\<close>

definition submit_order :: "bot \<Rightarrow> pyval \<Rightarrow> bool io" where
  "submit_order self payload =
     bind_io (requests_post (base_url self @ ''/exchange'') payload) (\<lambda>(code, body).
     bind_io (log_io INFO ''Status'') (\<lambda>_.
     bind_io (log_io INFO ''Response'') (\<lambda>_.
     order_result code body)))"

text \<open>
  \<^verbatim>\<open>execute_real_order\<close>: any exception of the two parts is caught, logged as an
  error and answered with \<^verbatim>\<open>False\<close>.
\<close>

definition execute_real_order ::
  "('w, 'm) lib \<Rightarrow> bot \<Rightarrow> string \<Rightarrow> string \<Rightarrow> decimal \<Rightarrow> rat \<Rightarrow> world \<Rightarrow> bool \<times> world" where
  "execute_real_order L self coin side sz price w =
     (case bind_io (prepare_order L self coin side sz price) (\<lambda>p.
             case p of None \<Rightarrow> return_io False
                     | Some payload \<Rightarrow> submit_order self payload) w of
        (Inl e, w') \<Rightarrow> (False, logger ERROR ''Error executing real order'' w')
      | (Inr ok, w') \<Rightarrow> (ok, w'))"

section \<open>Leverage\<close>

text \<open>The loop of \<^verbatim>\<open>_get_max_leverage\<close>.\<close>

fun find_max_leverage :: "string \<Rightarrow> pyval list \<Rightarrow> error + pyval option" where
  "find_max_leverage coin [] = Inr None"
| "find_max_leverage coin (asset # rest) =
     bind_res (py_get asset ''name'') (\<lambda>n.
       if n = Some (PStr coin) then
         bind_res (py_get_default asset ''maxLeverage'' (PInt 10)) (\<lambda>m. Inr (Some m))
       else find_max_leverage coin rest)"

text \<open>
  \<^verbatim>\<open>_get_max_leverage\<close>: the coin's \<^verbatim>\<open>maxLeverage\<close> as the metadata gives it, and
  10 when the entry has none, the coin is missing, the status is not 200 or anything
  raises.
\<close>

definition bot_get_max_leverage :: "string \<Rightarrow> world \<Rightarrow> pyval \<times> world" where
  "bot_get_max_leverage coin w =
     (case bind_io (requests_post info_url meta_request) (\<lambda>(code, body).
             if code = 200 then
               bind_io (lift_res
                  (bind_res (response_json body) (\<lambda>data.
                   bind_res (py_get_default data ''universe'' (PList [])) (\<lambda>universe.
                   bind_res (py_iter universe) (\<lambda>assets.
                   find_max_leverage coin assets)))))
                 (\<lambda>found. case found of
                    Some max_leverage \<Rightarrow>
                      bind_io (log_io INFO ''Max leverage'') (\<lambda>_. return_io max_leverage)
                  | None \<Rightarrow>
                      bind_io (log_io WARNING ''Could not find max leverage, using default 10x'')
                        (\<lambda>_. return_io (PInt 10)))
             else bind_io (log_io WARNING ''Failed to get max leverage, using default 10x'')
                    (\<lambda>_. return_io (PInt 10))) w
      of (Inl e, w') \<Rightarrow> (PInt 10, logger ERROR ''Error getting max leverage'' w')
       | (Inr r, w') \<Rightarrow> (r, w'))"

text \<open>
  \<^verbatim>\<open>leverage > max_leverage\<close> for an \<^verbatim>\<open>int\<close> on the left: an \<^verbatim>\<open>int\<close> or a
  \<^verbatim>\<open>bool\<close> on the right compares as a number, anything else raises.
\<close>

definition int_gt :: "int \<Rightarrow> pyval \<Rightarrow> error + bool" where
  "int_gt leverage max_leverage =
     (case max_leverage of
        PInt m \<Rightarrow> Inr (m < leverage)
      | PBool b \<Rightarrow> Inr ((if b then 1 else 0) < leverage)
      | _ \<Rightarrow> Inl TypeError)"

definition leverage_action :: "nat \<Rightarrow> pyval \<Rightarrow> pyval" where
  "leverage_action asset_id leverage =
     PDict [(''type'', PStr ''updateLeverage''), (''asset'', PInt (int asset_id)),
            (''isCross'', PBool True), (''leverage'', leverage)]"

text \<open>\<^verbatim>\<open>set_leverage\<close> up to the finished payload.\<close>

definition prepare_leverage ::
  "('w, 'm) lib \<Rightarrow> bot \<Rightarrow> string \<Rightarrow> int \<Rightarrow> pyval option io" where
  "prepare_leverage L self coin leverage =
     bind_io (lift_total (bot_get_asset_id coin)) (\<lambda>found.
       case found of
         None \<Rightarrow> bind_io (log_io ERROR ''Could not find asset ID'') (\<lambda>_. return_io None)
       | Some asset_id \<Rightarrow>
           bind_io (lift_total (bot_get_max_leverage coin)) (\<lambda>max_leverage.
           bind_io (lift_res (int_gt leverage max_leverage)) (\<lambda>over.
           bind_io (if over then log_io WARNING ''Leverage limited'' else return_io ()) (\<lambda>_.
           bind_io (\<lambda>w. (Inr (now_ms w), w)) (\<lambda>nonce.
           bind_io (bot_sign_l1_action_exact L self
                      (leverage_action asset_id (if over then max_leverage else PInt leverage))
                      None nonce None True) (\<lambda>sg.
           bind_io (log_io INFO ''Setting leverage'') (\<lambda>_.
           return_io (Some (signed_payload
              (leverage_action asset_id (if over then max_leverage else PInt leverage))
              nonce sg)))))))))"

definition submit_leverage :: "bot \<Rightarrow> pyval \<Rightarrow> bool io" where
  "submit_leverage self payload =
     bind_io (requests_post (base_url self @ ''/exchange'') payload) (\<lambda>(code, body).
       if code = 200 then
         bind_io (lift_res (response_json body)) (\<lambda>result.
         bind_io (lift_res (py_get result ''status'')) (\<lambda>st.
           if st = Some (PStr ''ok'') then
             bind_io (log_io INFO ''Leverage set successfully'') (\<lambda>_. return_io True)
           else bind_io (log_io ERROR ''Failed to set leverage'') (\<lambda>_. return_io False)))
       else bind_io (log_io ERROR ''HTTP Error setting leverage'') (\<lambda>_. return_io False))"

definition set_leverage ::
  "('w, 'm) lib \<Rightarrow> bot \<Rightarrow> string \<Rightarrow> int \<Rightarrow> world \<Rightarrow> bool \<times> world" where
  "set_leverage L self coin leverage w =
     (case bind_io (prepare_leverage L self coin leverage) (\<lambda>p.
             case p of None \<Rightarrow> return_io False
                     | Some payload \<Rightarrow> submit_leverage self payload) w of
        (Inl e, w') \<Rightarrow> (False, logger ERROR ''Error setting leverage'' w')
      | (Inr ok, w') \<Rightarrow> (ok, w'))"

section \<open>The order of \<^verbatim>\<open>hyperliquid_minimal_order.py\<close>\<close>





section \<open>Notions used in the statements\<close>

text \<open>
  \<open>posted ps w w'\<close>: between the two states exactly the requests \<open>ps\<close> were posted, each
  consuming one answer of the network, and the clock did not move.
\<close>

definition posted :: "(string \<times> pyval) list \<Rightarrow> world \<Rightarrow> world \<Rightarrow> bool" where
  "posted ps w w' = (sent w' = sent w @ ps \<and> responses w' = drop (length ps) (responses w)
                     \<and> now_ms w' = now_ms w)"

text \<open>
  The band of five percent around the reference price, with the bias of two and a half
  percent for a non-negative reference price: a buy stays at or below the reference
  plus the bias, a sell at or above the reference minus the bias.
\<close>

definition in_band :: "bool \<Rightarrow> rat \<Rightarrow> rat \<Rightarrow> bool" where
  "in_band is_buy ref limit =
     (\<bar>limit - ref\<bar> \<le> \<bar>ref\<bar> * (5 / 100)
      \<and> (0 \<le> ref \<longrightarrow> (if is_buy then limit \<le> ref + ref * (25 / 1000)
                       else ref - ref * (25 / 1000) \<le> limit)))"

text \<open>A computation that posts to the information endpoint only.\<close>

definition info_only :: "'a io \<Rightarrow> bool" where
  "info_only m = (\<forall>w r w'. m w = (r, w') \<longrightarrow>
      (\<exists>ps. sent w' = sent w @ ps \<and> (\<forall>p\<in>set ps. fst p = info_url)))"

text \<open>A field of the first order of a signed payload.\<close>

definition order_field :: "pyval \<Rightarrow> string \<Rightarrow> pyval option" where
  "order_field payload k =
     (case py_get payload ''action'' of
        Inr (Some action) \<Rightarrow>
          (case py_get action ''orders'' of
             Inr (Some (PList (order # rest))) \<Rightarrow>
               (case py_get order k of Inr r \<Rightarrow> r | Inl e \<Rightarrow> None)
           | _ \<Rightarrow> None)
      | _ \<Rightarrow> None)"

text \<open>
  The specification's notion of a successful submission, in its own words: the HTTP
  status is 200, the top-level status is \<open>ok\<close>, and no entry of
  \<open>response.data.statuses\<close> has an \<open>error\<close> field.
\<close>

definition has_error_field :: "pyval \<Rightarrow> bool" where
  "has_error_field status = (case status of PDict kvs \<Rightarrow> ''error'' \<in> set (map fst kvs) | _ \<Rightarrow> False)"

definition statuses_of :: "pyval \<Rightarrow> pyval list" where
  "statuses_of result =
     (case py_get result ''response'' of
        Inr (Some response_data) \<Rightarrow>
          (case py_get response_data ''data'' of
             Inr (Some d) \<Rightarrow>
               (case py_get d ''statuses'' of Inr (Some (PList xs)) \<Rightarrow> xs | _ \<Rightarrow> [])
           | _ \<Rightarrow> [])
      | _ \<Rightarrow> [])"

definition spec_order_accepted :: "response \<Rightarrow> bool" where
  "spec_order_accepted r =
     (case r of
        Response code (Some result) \<Rightarrow>
          code = 200 \<and> py_get result ''status'' = Inr (Some (PStr ''ok''))
          \<and> list_all (\<lambda>status. \<not> has_error_field status) (statuses_of result)
      | _ \<Rightarrow> False)"

text \<open>
  The next request fails: \<^verbatim>\<open>requests.post\<close> raises, or the status is not 200.
\<close>

definition fetch_failed :: "response list \<Rightarrow> bool" where
  "fetch_failed rs =
     (case rs of
        [] \<Rightarrow> True
      | Raises # rest \<Rightarrow> True
      | Response code body # rest \<Rightarrow> code \<noteq> 200)"

text \<open>The number a leverage value stands for.\<close>

definition py_int_value :: "pyval \<Rightarrow> int option" where
  "py_int_value v =
     (case v of PInt n \<Rightarrow> Some n | PBool b \<Rightarrow> Some (if b then 1 else 0) | _ \<Rightarrow> None)"

section \<open>Reading the serialisation back\<close>

text \<open>
  The first byte of a packed value tells its kind: nil, boolean, integer, string, array
  or map, in this order.
\<close>

definition kind :: "byte \<Rightarrow> nat" where
  "kind t =
     (let u = uint t in
      if u = 192 then 0
      else if u = 194 \<or> u = 195 then 1
      else if u < 128 \<or> 224 \<le> u \<or> (204 \<le> u \<and> u \<le> 211) then 2
      else if (160 \<le> u \<and> u < 192) \<or> (217 \<le> u \<and> u \<le> 219) then 3
      else if (144 \<le> u \<and> u < 160) \<or> u = 220 \<or> u = 221 then 4
      else if (128 \<le> u \<and> u < 144) \<or> u = 222 \<or> u = 223 then 5
      else 6)"

definition ctor :: "pyval \<Rightarrow> nat" where
  "ctor v = (case v of PNone \<Rightarrow> 0 | PBool b \<Rightarrow> 1 | PInt n \<Rightarrow> 2 | PStr s \<Rightarrow> 3
             | PList xs \<Rightarrow> 4 | PDict kvs \<Rightarrow> 5)"

text \<open>The integer at the head of a byte string, and the bytes after it.\<close>

definition unpack_int :: "bytes \<Rightarrow> (int \<times> bytes) option" where
  "unpack_int bs =
     (case bs of
        [] \<Rightarrow> None
      | t # r \<Rightarrow>
          if uint t < 128 then Some (uint t, r)
          else if 224 \<le> uint t then Some (uint t - 256, r)
          else if t = 0xcc then Some (be_value (take 1 r), drop 1 r)
          else if t = 0xcd then Some (be_value (take 2 r), drop 2 r)
          else if t = 0xce then Some (be_value (take 4 r), drop 4 r)
          else if t = 0xcf then Some (be_value (take 8 r), drop 8 r)
          else if t = 0xd0 then Some (be_value (take 1 r) - 2 ^ 8, drop 1 r)
          else if t = 0xd1 then Some (be_value (take 2 r) - 2 ^ 16, drop 2 r)
          else if t = 0xd2 then Some (be_value (take 4 r) - 2 ^ 32, drop 4 r)
          else if t = 0xd3 then Some (be_value (take 8 r) - 2 ^ 64, drop 8 r)
          else None)"

text \<open>
  A length header: a tag with the count in its low bits, or one of three tags followed
  by the count in 1, 2 or 4 bytes.
\<close>

definition unpack_count :: "int \<Rightarrow> int \<Rightarrow> byte \<Rightarrow> byte \<Rightarrow> byte \<Rightarrow> bytes \<Rightarrow> (int \<times> bytes) option" where
  "unpack_count base cnt t8 t16 t32 bs =
     (case bs of
        [] \<Rightarrow> None
      | t # r \<Rightarrow>
          if base \<le> uint t \<and> uint t < base + cnt then Some (uint t - base, r)
          else if t = t8 then Some (be_value (take 1 r), drop 1 r)
          else if t = t16 then Some (be_value (take 2 r), drop 2 r)
          else if t = t32 then Some (be_value (take 4 r), drop 4 r)
          else None)"

text \<open>Two dictionaries with the same key-value pairs, in whatever order.\<close>

definition same_fields :: "pyval \<Rightarrow> pyval \<Rightarrow> bool" where
  "same_fields a1 a2 =
     (case (a1, a2) of
        (PDict kvs1, PDict kvs2) \<Rightarrow>
          distinct (map fst kvs1) \<and> distinct (map fst kvs2) \<and> set kvs1 = set kvs2
      | _ \<Rightarrow> False)"

section \<open>A stand-in library for concrete evaluations\<close>

text \<open>
  The theorems below hold for every library. Where one is needed at a concrete input,
  this one is used: its digest is a constant 32-byte string, its signer a constant,
  and the only numeric string it reads is \<open>100\<close>.
\<close>

definition stub_lib :: "(unit, unit) lib" where
  "stub_lib = \<lparr>keccak256 = (\<lambda>d. replicate 32 0), encode_typed_data = (\<lambda>t. Inr ()),
               from_key = (\<lambda>k. Inr ()), sign_message = (\<lambda>w m. Inr (17, 18, 27)),
               float_of_str = (\<lambda>s. if s = ''100'' then Some 100 else None)\<rparr>"

text \<open>
  Example answers of the exchange: two metadata answers (the second with a mark price),
  an accepted and a rejected order, and an example bot and starting state.
\<close>

definition example_meta :: response where
  "example_meta = Response 200 (Some (PDict [(''universe'', PList
     [PDict [(''name'', PStr ''BTC''), (''szDecimals'', PInt 5), (''maxLeverage'', PInt 40)],
      PDict [(''name'', PStr ''ETH''), (''szDecimals'', PInt 3), (''maxLeverage'', PInt 25)],
      PDict [(''name'', PStr ''ATOM''), (''szDecimals'', PInt 2), (''maxLeverage'', PInt 5)]])]))"


definition accepted_answer :: response where
  "accepted_answer = Response 200 (Some (PDict [(''status'', PStr ''ok''),
     (''response'', PDict [(''type'', PStr ''order''),
        (''data'', PDict [(''statuses'', PList
           [PDict [(''resting'', PDict [(''oid'', PInt 77738308)])]])])])]))"


definition example_bot :: bot where
  "example_bot = \<lparr>private_key = ''0x01'', wallet_address = ''0x02'',
                   base_url = ''https://api.hyperliquid.xyz''\<rparr>"

definition example_world :: "response list \<Rightarrow> world" where
  "example_world rs = \<lparr>responses = rs, sent = [], log = [], now_ms = 1700000000000\<rparr>"

definition example_signature :: signature where
  "example_signature = \<lparr>sig_r = ''0x11'', sig_s = ''0x12'', sig_v = 27\<rparr>"

section \<open>Facts about bytes and hex strings\<close>

lemma length_be [simp]: "length (be k n) = k"
  by (induction k n rule: be.induct) auto

lemma be_value_snoc: "be_value (bs @ [b]) = 256 * be_value bs + uint b"
  by (simp add: be_value_def)

lemma be_value_be: "0 \<le> n \<Longrightarrow> n < 256 ^ k \<Longrightarrow> be_value (be k n) = n"
proof (induction k n rule: be.induct)
  case (1 n)
  then show ?case by (simp add: be_value_def)
next
  case (2 k n)
  have "n div 256 < 256 ^ k" using 2(2,3) by (simp add: div_less_iff_less_mult mult.commute)
  moreover have "0 \<le> n div 256" using 2(2) by simp
  ultimately have "be_value (be k (n div 256)) = n div 256" using 2(1) by simp
  moreover have "uint (of_int n :: byte) = n mod 256"
    by (simp add: uint_word_of_int)
  ultimately show ?case by (simp add: be_value_snoc)
qed

lemma hexval_digit: "hexval c = Some h \<Longrightarrow> h < 16 \<and> hexdigit h = lower_char c"
  by (auto simp: hexval_def hexdigit_def lower_char_def Let_def split: if_splits)

lemma hexval_not_space: "hexval c = Some h \<Longrightarrow> \<not> is_space c"
  by (auto simp: hexval_def is_space_def Let_def split: if_splits)

lemma hex_byte_pair: "h < 16 \<Longrightarrow> l < 16 \<Longrightarrow> hex_byte (of_nat (16 * h + l)) = [hexdigit h, hexdigit l]"
proof -
  assume a: "h < 16" "l < 16"
  have "unat (of_nat (16 * h + l) :: byte) = 16 * h + l"
    using a by (simp only: unat_of_nat) simp
  then show ?thesis using a by (simp add: hex_byte_def del: of_nat_add of_nat_mult)
qed

lemma fromhex_digits:
  "list_all (\<lambda>c. hexval c \<noteq> None) t \<Longrightarrow> even (length t) \<Longrightarrow>
   \<exists>bs. fromhex t = Inr bs \<and> bytes_hex bs = lower t \<and> 2 * length bs = length t"
proof (induction t rule: fromhex.induct)
  case 1
  then show ?case by (simp add: bytes_hex_def lower_def)
next
  case (2 c)
  then show ?case by simp
next
  case (3 c d cs)
  from 3(3) obtain h l where h: "hexval c = Some h" and l: "hexval d = Some l"
    and rest: "list_all (\<lambda>c. hexval c \<noteq> None) cs" by auto
  have nsp: "\<not> is_space c" using h by (rule hexval_not_space)
  from 3(4) have "even (length cs)" by simp
  with 3(2)[OF nsp refl h l] rest h l obtain bs where bs: "fromhex cs = Inr bs" "bytes_hex bs = lower cs" "2 * length bs = length cs"
    by auto
  have "hex_byte (of_nat (16 * h + l)) = [lower_char c, lower_char d]"
    using hexval_digit[OF h] hexval_digit[OF l] hex_byte_pair[of h l] by simp
  then show ?case using nsp h l bs by (simp add: bytes_hex_def lower_def del: of_nat_add of_nat_mult)
qed

lemma hexval_lower: "hexval c \<noteq> None \<Longrightarrow> hexval (lower_char c) \<noteq> None"
  by (auto simp: hexval_def lower_char_def Let_def split: if_splits)

lemma lower_char_idem: "lower_char (lower_char c) = lower_char c"
  by (auto simp: lower_char_def Let_def)

lemma hexval_hexdigit: "n < 16 \<Longrightarrow> hexval (hexdigit n) = Some n"
  by (auto simp: hexval_def hexdigit_def Let_def)

lemma is_space_hexdigit: "n < 16 \<Longrightarrow> \<not> is_space (hexdigit n)"
  by (auto simp: is_space_def hexdigit_def Let_def)

lemma lower_hexdigit: "n < 16 \<Longrightarrow> lower_char (hexdigit n) = hexdigit n"
  by (auto simp: lower_char_def hexdigit_def Let_def)

lemma unat_byte_split: "16 * (unat (b::byte) div 16) + unat b mod 16 = unat b"
  by simp

lemma byte_div16: "unat (b::byte) div 16 < 16"
proof -
  have "unat b < 256" using unsigned_less[of b] by simp
  then show ?thesis by simp
qed

lemma fromhex_bytes_hex: "fromhex (bytes_hex bs) = Inr bs"
proof (induction bs)
  case Nil
  then show ?case by (simp add: bytes_hex_def)
next
  case (Cons b bs)
  have "of_nat (16 * (unat b div 16) + unat b mod 16) = b"
    by (simp only: unat_byte_split) simp
  then show ?case using Cons
    by (simp add: bytes_hex_def hex_byte_def hexval_hexdigit is_space_hexdigit byte_div16
             del: of_nat_add of_nat_mult)
qed

lemma lower_bytes_hex: "lower (bytes_hex bs) = bytes_hex bs"
  by (induction bs) (simp_all add: bytes_hex_def lower_def hex_byte_def lower_hexdigit byte_div16)

lemma length_bytes_hex: "length (bytes_hex bs) = 2 * length bs"
  by (induction bs) (simp_all add: bytes_hex_def hex_byte_def)


section \<open>The action hash\<close>

text \<open>
  Claim C1. For an action that msgpack serialises to \<open>ser\<close>, a nonce and an optional
  expiry in the unsigned 64-bit range and an optional vault address of forty hex digits
  after its two-character prefix, \<open>action_hash\<close> returns the Keccak-256 digest (32
  bytes, as the digest primitive delivers) of \<open>ser\<close>, followed by eight bytes that
  read big-endian as the nonce, followed by the single byte \<open>0x00\<close> when there is no
  vault address and otherwise by \<open>0x01\<close> and the twenty bytes whose hex form is the
  lowercased address without its prefix, followed, only when an expiry is given, by
  \<open>0x00\<close> and eight bytes that read big-endian as the expiry.
\<close>

theorem action_hash_layout:
  assumes ser: "msgpack_packb action = Inr ser"
    and nonce: "u64_ok nonce"
    and vault: "\<forall>a. vault_address = Some a \<longrightarrow> address_ok a"
    and exp: "\<forall>e. expires_after = Some e \<longrightarrow> u64_ok e"
    and dg: "\<forall>d. length (keccak256 L d) = 32"
  shows "\<exists>n8 vb eb.
           action_hash L action vault_address nonce expires_after
             = Inr (keccak256 L (ser @ n8 @ vb @ eb))
         \<and> length (keccak256 L (ser @ n8 @ vb @ eb)) = 32
         \<and> length n8 = 8 \<and> be_value n8 = nonce
         \<and> (case vault_address of
               None \<Rightarrow> vb = [0x00]
             | Some a \<Rightarrow> \<exists>raw. vb = 0x01 # raw \<and> length raw = 20
                           \<and> bytes_hex raw = lower (drop 2 a))
         \<and> (case expires_after of
               None \<Rightarrow> eb = []
             | Some e \<Rightarrow> \<exists>e8. eb = 0x00 # e8 \<and> length e8 = 8 \<and> be_value e8 = e)"
proof -
  have n8: "to_bytes_big 8 nonce = Inr (be 8 nonce)"
    using nonce by (simp add: to_bytes_big_def u64_ok_def)
  have n8v: "be_value (be 8 nonce) = nonce"
    using nonce by (intro be_value_be) (simp_all add: u64_ok_def)
  obtain vb where vb:
    "(case vault_address of None \<Rightarrow> Inr (ser @ be 8 nonce @ [0x00])
        | Some a \<Rightarrow> bind_res (address_to_bytes a) (\<lambda>ab. Inr (ser @ be 8 nonce @ [0x01] @ ab)))
      = (Inr (ser @ be 8 nonce @ vb) :: error + bytes)"
    "case vault_address of None \<Rightarrow> vb = [0x00]
      | Some a \<Rightarrow> \<exists>raw. vb = 0x01 # raw \<and> length raw = 20 \<and> bytes_hex raw = lower (drop 2 a)"
  proof (cases vault_address)
    case None
    then show ?thesis using that[of "[0x00]"] by simp
  next
    case (Some a)
    with vault have ok: "address_ok a" by simp
    have "list_all (\<lambda>c. hexval c \<noteq> None) (lower (drop 2 a))"
      using ok hexval_lower by (fastforce simp: address_ok_def lower_def list_all_iff)
    moreover have "even (length (lower (drop 2 a)))"
      using ok by (simp add: address_ok_def lower_def)
    ultimately obtain raw where raw: "fromhex (lower (drop 2 a)) = Inr raw"
      "bytes_hex raw = lower (lower (drop 2 a))" "2 * length raw = length (lower (drop 2 a))"
      using fromhex_digits by blast
    have "lower (lower (drop 2 a)) = lower (drop 2 a)"
      by (simp add: lower_def lower_char_idem)
    moreover have "length raw = 20" using raw(3) ok by (simp add: address_ok_def lower_def)
    ultimately show ?thesis using that[of "0x01 # raw"] raw Some
      by (simp add: address_to_bytes_def bind_res_def)
  qed
  obtain eb where eb:
    "(case expires_after of None \<Rightarrow> Inr (ser @ be 8 nonce @ vb)
        | Some e \<Rightarrow> bind_res (to_bytes_big 8 e) (\<lambda>e8. Inr ((ser @ be 8 nonce @ vb) @ [0x00] @ e8)))
      = (Inr (ser @ be 8 nonce @ vb @ eb) :: error + bytes)"
    "case expires_after of None \<Rightarrow> eb = []
      | Some e \<Rightarrow> \<exists>e8. eb = 0x00 # e8 \<and> length e8 = 8 \<and> be_value e8 = e"
  proof (cases expires_after)
    case None
    then show ?thesis using that[of "[]"] by simp
  next
    case (Some e)
    with exp have ok: "u64_ok e" by simp
    have "to_bytes_big 8 e = Inr (be 8 e)"
      using ok by (simp add: to_bytes_big_def u64_ok_def)
    moreover have "be_value (be 8 e) = e"
      using ok by (intro be_value_be) (simp_all add: u64_ok_def)
    ultimately show ?thesis using that[of "0x00 # be 8 e"] Some
      by (simp add: bind_res_def)
  qed
  have "action_hash L action vault_address nonce expires_after
          = Inr (keccak256 L (ser @ be 8 nonce @ vb @ eb))"
    unfolding action_hash_def using ser n8 vb(1) eb(1) by (simp add: bind_res_def)
  then show ?thesis using dg n8v vb(2) eb(2) by (intro exI[of _ "be 8 nonce"] exI[of _ vb] exI[of _ eb]) simp
qed

theorem action_hash_layout_witness:
  "msgpack_packb (PDict [(''type'', PStr ''order''), (''grouping'', PStr ''na'')])
     = Inr [130, 164, 116, 121, 112, 101, 165, 111, 114, 100, 101, 114, 168, 103,
            114, 111, 117, 112, 105, 110, 103, 162, 110, 97]
   \<and> u64_ok 1700000000000
   \<and> address_ok ''0x00000000000000000000000000000000000000aB''
   \<and> u64_ok 1700000060000
   \<and> (\<forall>d. length (keccak256 stub_lib d) = 32)
   \<and> (\<exists>n8 vb eb.
         action_hash stub_lib (PDict [(''type'', PStr ''order''), (''grouping'', PStr ''na'')])
           (Some ''0x00000000000000000000000000000000000000aB'') 1700000000000
           (Some 1700000060000)
           = Inr (keccak256 stub_lib
                ([130, 164, 116, 121, 112, 101, 165, 111, 114, 100, 101, 114, 168, 103,
                  114, 111, 117, 112, 105, 110, 103, 162, 110, 97] @ n8 @ vb @ eb))
       \<and> length n8 = 8 \<and> be_value n8 = 1700000000000
       \<and> (\<exists>raw. vb = 0x01 # raw \<and> length raw = 20
              \<and> bytes_hex raw = ''00000000000000000000000000000000000000ab'')
       \<and> (\<exists>e8. eb = 0x00 # e8 \<and> length e8 = 8 \<and> be_value e8 = 1700000060000))"
proof -
  have h1: "msgpack_packb (PDict [(''type'', PStr ''order''), (''grouping'', PStr ''na'')])
     = Inr [130, 164, 116, 121, 112, 101, 165, 111, 114, 100, 101, 114, 168, 103,
            114, 111, 117, 112, 105, 110, 103, 162, 110, 97]"
    by code_simp
  have h2: "u64_ok 1700000000000" by (simp add: u64_ok_def)
  have h3: "address_ok ''0x00000000000000000000000000000000000000aB''" by code_simp
  have h3': "\<forall>a. Some ''0x00000000000000000000000000000000000000aB'' = Some a \<longrightarrow> address_ok a"
    using h3 by simp
  have h4: "u64_ok 1700000060000" by (simp add: u64_ok_def)
  have h4': "\<forall>e. Some (1700000060000::int) = Some e \<longrightarrow> u64_ok e" using h4 by simp
  have h5: "\<forall>d. length (keccak256 stub_lib d) = 32" by (simp add: stub_lib_def)
  have lw: "lower ''00000000000000000000000000000000000000aB''
             = ''00000000000000000000000000000000000000ab''" by code_simp
  show ?thesis
    using action_hash_layout [OF h1 h2 h3' h4' h5] h1 h2 h3 h4 h5
    by (simp add: lw)
qed

section \<open>The typed-data document\<close>

text \<open>
  Claim C4. For every digest and mainnet flag the document that is signed has the fixed
  domain (chain id 1337, name Exchange, the zero address as verifying contract,
  version 1), the fixed Agent and EIP712Domain type schema, primary type Agent, and as
  its message the phantom agent with source \<open>a\<close> on mainnet and \<open>b\<close> otherwise and
  connection id \<open>0x\<close> followed by the lowercase hex of the digest (two digits per
  byte, decoding back to the digest). The documents of two calls differ in the message
  field only.
\<close>

theorem typed_data_document:
  "l1_payload (construct_phantom_agent digest is_mainnet) =
     \<lparr>domain = \<lparr>chainId = 1337, name = ''Exchange'',
                verifyingContract = ''0x'' @ replicate 40 (CHR ''0''), version = ''1''\<rparr>,
      types = [(''Agent'', [(''source'', ''string''), (''connectionId'', ''bytes32'')]),
               (''EIP712Domain'', [(''name'', ''string''), (''version'', ''string''),
                                   (''chainId'', ''uint256''),
                                   (''verifyingContract'', ''address'')])],
      primaryType = ''Agent'',
      message = \<lparr>source = (if is_mainnet then ''a'' else ''b''),
                 connectionId = ''0x'' @ bytes_hex digest\<rparr>\<rparr>
   \<and> fromhex (bytes_hex digest) = Inr digest
   \<and> lower (bytes_hex digest) = bytes_hex digest
   \<and> length (bytes_hex digest) = 2 * length digest
   \<and> l1_payload (construct_phantom_agent digest' is_mainnet') =
       (l1_payload (construct_phantom_agent digest is_mainnet))
         \<lparr>message := construct_phantom_agent digest' is_mainnet'\<rparr>"
  by (simp add: l1_payload_def construct_phantom_agent_def fromhex_bytes_hex lower_bytes_hex
        length_bytes_hex eval_nat_numeral)

section \<open>The serialisation is injective\<close>

lemma be_take_drop:
  assumes "0 \<le> n" "n < 256 ^ k"
  shows "be_value (take k (be k n @ r)) = n" "drop k (be k n @ r) = r"
  using assms by (simp_all add: be_value_be)

lemma uint_byte_small: "0 \<le> n \<Longrightarrow> n < 256 \<Longrightarrow> uint (of_int n :: byte) = n"
  by (simp add: uint_word_of_int)

lemma uint_byte_neg: "- 256 \<le> n \<Longrightarrow> n < 0 \<Longrightarrow> uint (of_int n :: byte) = n + 256"
proof -
  assume a: "- 256 \<le> n" "n < 0"
  have "n mod 256 = (n + 256) mod 256" by simp
  also have "\<dots> = n + 256" using a by (intro mod_pos_pos_trivial) simp_all
  finally show ?thesis by (simp add: uint_word_of_int)
qed

lemma uint_byte_nat: "n < 256 \<Longrightarrow> uint (of_nat n :: byte) = int n"
proof -
  assume "n < 256"
  then have "unat (of_nat n :: byte) = n" by (simp add: unat_of_nat)
  then show ?thesis by (simp only: uint_nat)
qed

lemma unpack_pack_int:
  assumes "pack_int n = Inr b"
  shows "unpack_int (b @ r) = Some (n, r)"
proof -
  have p1: "(256::int) ^ 1 = 2 ^ 8" "(256::int) ^ 2 = 2 ^ 16" "(256::int) ^ 4 = 2 ^ 32"
    "(256::int) ^ 8 = 2 ^ 64" by simp_all
  consider (a) "0 \<le> n" "n < 2 ^ 7" | (b) "2 ^ 7 \<le> n" "n < 2 ^ 8" | (c) "2 ^ 8 \<le> n" "n < 2 ^ 16"
    | (d) "2 ^ 16 \<le> n" "n < 2 ^ 32" | (e) "2 ^ 32 \<le> n" "n < 2 ^ 64"
    | (f) "- (2 ^ 5) \<le> n" "n < 0" | (g) "- (2 ^ 7) \<le> n" "n < - (2 ^ 5)"
    | (h) "- (2 ^ 15) \<le> n" "n < - (2 ^ 7)" | (i) "- (2 ^ 31) \<le> n" "n < - (2 ^ 15)"
    | (j) "- (2 ^ 63) \<le> n" "n < - (2 ^ 31)"
    using assms by (auto simp: pack_int_def split: if_splits) 
  then show ?thesis
  proof cases
    case a
    then have "b = [of_int n]" using assms by (simp add: pack_int_def)
    moreover have "uint (of_int n :: byte) = n" using a by (intro uint_byte_small) simp_all
    ultimately show ?thesis using a by (simp add: unpack_int_def)
  next
    case b
    then have "b = 0xcc # be 1 n" using assms by (simp add: pack_int_def)
    moreover have "be_value (take 1 (be 1 n @ r)) = n" "drop 1 (be 1 n @ r) = r"
      using b by (intro be_take_drop; simp)+
    ultimately show ?thesis by (simp add: unpack_int_def)
  next
    case c
    then have "b = 0xcd # be 2 n" using assms by (simp add: pack_int_def)
    moreover have "be_value (take 2 (be 2 n @ r)) = n" "drop 2 (be 2 n @ r) = r"
      using c by (intro be_take_drop; simp)+
    ultimately show ?thesis by (simp add: unpack_int_def)
  next
    case d
    then have "b = 0xce # be 4 n" using assms by (simp add: pack_int_def)
    moreover have "be_value (take 4 (be 4 n @ r)) = n" "drop 4 (be 4 n @ r) = r"
      using d by (intro be_take_drop; simp)+
    ultimately show ?thesis by (simp add: unpack_int_def)
  next
    case e
    then have "b = 0xcf # be 8 n" using assms by (simp add: pack_int_def)
    moreover have "be_value (take 8 (be 8 n @ r)) = n" "drop 8 (be 8 n @ r) = r"
      using e by (intro be_take_drop; simp)+
    ultimately show ?thesis by (simp add: unpack_int_def)
  next
    case f
    then have "b = [of_int n]" using assms by (simp add: pack_int_def)
    moreover have "uint (of_int n :: byte) = n + 256" using f by (intro uint_byte_neg) simp_all
    ultimately show ?thesis using f by (simp add: unpack_int_def)
  next
    case g
    then have "b = 0xd0 # be 1 (n + 2 ^ 8)" using assms by (simp add: pack_int_def)
    moreover have "be_value (take 1 (be 1 (n + 2 ^ 8) @ r)) = n + 2 ^ 8"
      "drop 1 (be 1 (n + 2 ^ 8) @ r) = r"
      using g by (intro be_take_drop; simp)+
    ultimately show ?thesis by (simp add: unpack_int_def)
  next
    case h
    then have "b = 0xd1 # be 2 (n + 2 ^ 16)" using assms by (simp add: pack_int_def)
    moreover have "be_value (take 2 (be 2 (n + 2 ^ 16) @ r)) = n + 2 ^ 16"
      "drop 2 (be 2 (n + 2 ^ 16) @ r) = r"
      using h by (intro be_take_drop; simp)+
    ultimately show ?thesis by (simp add: unpack_int_def)
  next
    case i
    then have "b = 0xd2 # be 4 (n + 2 ^ 32)" using assms by (simp add: pack_int_def)
    moreover have "be_value (take 4 (be 4 (n + 2 ^ 32) @ r)) = n + 2 ^ 32"
      "drop 4 (be 4 (n + 2 ^ 32) @ r) = r"
      using i by (intro be_take_drop; simp)+
    ultimately show ?thesis by (simp add: unpack_int_def)
  next
    case j
    then have "b = 0xd3 # be 8 (n + 2 ^ 64)" using assms by (simp add: pack_int_def)
    moreover have "be_value (take 8 (be 8 (n + 2 ^ 64) @ r)) = n + 2 ^ 64"
      "drop 8 (be 8 (n + 2 ^ 64) @ r) = r"
      using j by (intro be_take_drop; simp)+
    ultimately show ?thesis by (simp add: unpack_int_def)
  qed
qed

lemma pack_int_inj:
  "pack_int n = Inr b \<Longrightarrow> pack_int n' = Inr b' \<Longrightarrow> b @ r = b' @ r' \<Longrightarrow> n = n' \<and> r = r'"
  using unpack_pack_int[of n b r] unpack_pack_int[of n' b' r'] by simp

lemma byte_of_char_inj:
  assumes "(of_nat (of_char c) :: byte) = of_nat (of_char c')"
  shows "c = c'"
proof -
  have "uint (of_nat (of_char c) :: byte) = int (of_char c)" by (rule uint_byte_nat) simp
  moreover have "uint (of_nat (of_char c') :: byte) = int (of_char c')" by (rule uint_byte_nat) simp
  ultimately have "int (of_char c) = int (of_char c')" using assms by (simp only:)
  then show ?thesis by simp
qed

lemma utf8_inj: "utf8 s = utf8 s' \<Longrightarrow> s = s'"
proof (induction s arbitrary: s')
  case Nil
  then show ?case by (simp add: utf8_def)
next
  case (Cons c s)
  from Cons.prems obtain c' t where s': "s' = c' # t" by (cases s') (simp_all add: utf8_def)
  from Cons.prems[unfolded s'] have h: "(of_nat (of_char c) :: byte) = of_nat (of_char c')" and
    t: "utf8 s = utf8 t" by (simp_all add: utf8_def)
  from byte_of_char_inj[OF h] Cons.IH[OF t] s' show ?case by (simp only:)
qed

lemma length_utf8 [simp]: "length (utf8 s) = length s"
  by (simp add: utf8_def)

lemma unpack_pack_str:
  assumes "pack_str s = Inr b"
  shows "unpack_count 160 32 0xd9 0xda 0xdb (b @ r) = Some (int (length s), utf8 s @ r)"
proof -
  let ?n = "length s"
  consider (a) "?n < 32" | (b) "32 \<le> ?n" "?n < 2 ^ 8" | (c) "2 ^ 8 \<le> ?n" "?n < 2 ^ 16"
    | (d) "2 ^ 16 \<le> ?n" "?n < 2 ^ 32"
    using assms by (auto simp: pack_str_def Let_def split: if_splits)
  then show ?thesis
  proof cases
    case a
    then have "b = of_nat (160 + ?n) # utf8 s" using assms by (simp add: pack_str_def Let_def)
    moreover have "uint (of_nat (160 + ?n) :: byte) = int (160 + ?n)"
      using a by (intro uint_byte_nat) simp
    ultimately show ?thesis using a by (simp add: unpack_count_def del: of_nat_add)
  next
    case b
    then have "b = 0xd9 # be 1 (int ?n) @ utf8 s" using assms by (simp add: pack_str_def Let_def)
    moreover have "be_value (take 1 (be 1 (int ?n) @ utf8 s @ r)) = int ?n"
      "drop 1 (be 1 (int ?n) @ utf8 s @ r) = utf8 s @ r"
      using b by (intro be_take_drop; simp)+
    ultimately show ?thesis by (simp add: unpack_count_def)
  next
    case c
    then have "b = 0xda # be 2 (int ?n) @ utf8 s" using assms by (simp add: pack_str_def Let_def)
    moreover have "be_value (take 2 (be 2 (int ?n) @ utf8 s @ r)) = int ?n"
      "drop 2 (be 2 (int ?n) @ utf8 s @ r) = utf8 s @ r"
      using c by (intro be_take_drop; simp)+
    ultimately show ?thesis by (simp add: unpack_count_def)
  next
    case d
    then have "b = 0xdb # be 4 (int ?n) @ utf8 s" using assms by (simp add: pack_str_def Let_def)
    moreover have "be_value (take 4 (be 4 (int ?n) @ utf8 s @ r)) = int ?n"
      "drop 4 (be 4 (int ?n) @ utf8 s @ r) = utf8 s @ r"
      using d by (intro be_take_drop; simp)+
    ultimately show ?thesis by (simp add: unpack_count_def)
  qed
qed

lemma pack_str_inj:
  assumes "pack_str s = Inr b" "pack_str s' = Inr b'" "b @ r = b' @ r'"
  shows "s = s' \<and> r = r'"
proof -
  from unpack_pack_str[OF assms(1), of r] unpack_pack_str[OF assms(2), of r'] assms(3)
  have l: "length s = length s'" and e: "utf8 s @ r = utf8 s' @ r'" by simp_all
  from e l have "utf8 s = utf8 s'" "r = r'" by simp_all
  then show ?thesis using utf8_inj by blast
qed

lemma unpack_array_header:
  assumes "array_header n = Inr h"
  shows "unpack_count 144 16 0xc1 0xdc 0xdd (h @ r) = Some (int n, r)"
proof -
  consider (a) "n < 16" | (c) "16 \<le> n" "n < 2 ^ 16" | (d) "2 ^ 16 \<le> n" "n < 2 ^ 32"
    using assms by (auto simp: array_header_def split: if_splits)
  then show ?thesis
  proof cases
    case a
    then have "h = [of_nat (144 + n)]" using assms by (simp add: array_header_def)
    moreover have "uint (of_nat (144 + n) :: byte) = int (144 + n)"
      using a by (intro uint_byte_nat) simp
    ultimately show ?thesis using a by (simp add: unpack_count_def del: of_nat_add)
  next
    case c
    then have "h = 0xdc # be 2 (int n)" using assms by (simp add: array_header_def)
    moreover have "be_value (take 2 (be 2 (int n) @ r)) = int n" "drop 2 (be 2 (int n) @ r) = r"
      using c by (intro be_take_drop; simp)+
    ultimately show ?thesis by (simp add: unpack_count_def)
  next
    case d
    then have "h = 0xdd # be 4 (int n)" using assms by (simp add: array_header_def)
    moreover have "be_value (take 4 (be 4 (int n) @ r)) = int n" "drop 4 (be 4 (int n) @ r) = r"
      using d by (intro be_take_drop; simp)+
    ultimately show ?thesis by (simp add: unpack_count_def)
  qed
qed

lemma unpack_map_header:
  assumes "map_header n = Inr h"
  shows "unpack_count 128 16 0xc1 0xde 0xdf (h @ r) = Some (int n, r)"
proof -
  consider (a) "n < 16" | (c) "16 \<le> n" "n < 2 ^ 16" | (d) "2 ^ 16 \<le> n" "n < 2 ^ 32"
    using assms by (auto simp: map_header_def split: if_splits)
  then show ?thesis
  proof cases
    case a
    then have "h = [of_nat (128 + n)]" using assms by (simp add: map_header_def)
    moreover have "uint (of_nat (128 + n) :: byte) = int (128 + n)"
      using a by (intro uint_byte_nat) simp
    ultimately show ?thesis using a by (simp add: unpack_count_def del: of_nat_add)
  next
    case c
    then have "h = 0xde # be 2 (int n)" using assms by (simp add: map_header_def)
    moreover have "be_value (take 2 (be 2 (int n) @ r)) = int n" "drop 2 (be 2 (int n) @ r) = r"
      using c by (intro be_take_drop; simp)+
    ultimately show ?thesis by (simp add: unpack_count_def)
  next
    case d
    then have "h = 0xdf # be 4 (int n)" using assms by (simp add: map_header_def)
    moreover have "be_value (take 4 (be 4 (int n) @ r)) = int n" "drop 4 (be 4 (int n) @ r) = r"
      using d by (intro be_take_drop; simp)+
    ultimately show ?thesis by (simp add: unpack_count_def)
  qed
qed

lemma array_header_inj:
  "array_header n = Inr h \<Longrightarrow> array_header n' = Inr h' \<Longrightarrow> h @ r = h' @ r' \<Longrightarrow> n = n' \<and> r = r'"
  using unpack_array_header[of n h r] unpack_array_header[of n' h' r'] by simp

lemma map_header_inj:
  "map_header n = Inr h \<Longrightarrow> map_header n' = Inr h' \<Longrightarrow> h @ r = h' @ r' \<Longrightarrow> n = n' \<and> r = r'"
  using unpack_map_header[of n h r] unpack_map_header[of n' h' r'] by simp

lemma pack_int_kind: "pack_int n = Inr b \<Longrightarrow> \<exists>t r. b = t # r \<and> kind t = 2"
proof -
  assume a: "pack_int n = Inr b"
  consider (pos) "0 \<le> n" "n < 2 ^ 7" | (neg) "- (2 ^ 5) \<le> n" "n < 0"
    | (tag) "\<exists>t r. b = t # r \<and> t \<in> {0xcc, 0xcd, 0xce, 0xcf, 0xd0, 0xd1, 0xd2, 0xd3}"
    using a by (auto simp: pack_int_def split: if_splits)
  then show ?thesis
  proof cases
    case pos
    then have "b = [of_int n]" using a by (simp add: pack_int_def)
    moreover have "uint (of_int n :: byte) = n" using pos by (intro uint_byte_small) simp_all
    ultimately show ?thesis using pos by (simp add: kind_def)
  next
    case neg
    then have "b = [of_int n]" using a by (simp add: pack_int_def)
    moreover have "uint (of_int n :: byte) = n + 256" using neg by (intro uint_byte_neg) simp_all
    ultimately show ?thesis using neg by (simp add: kind_def)
  next
    case tag
    then show ?thesis by (auto simp: kind_def)
  qed
qed

lemma pack_str_kind: "pack_str s = Inr b \<Longrightarrow> \<exists>t r. b = t # r \<and> kind t = 3"
proof -
  assume a: "pack_str s = Inr b"
  consider (small) "length s < 32"
    | (tag) "\<exists>t r. b = t # r \<and> t \<in> {0xd9, 0xda, 0xdb}"
    using a by (auto simp: pack_str_def Let_def split: if_splits)
  then show ?thesis
  proof cases
    case small
    then have "b = of_nat (160 + length s) # utf8 s" using a by (simp add: pack_str_def Let_def)
    moreover have "uint (of_nat (160 + length s) :: byte) = int (160 + length s)"
      using small by (intro uint_byte_nat) simp
    ultimately show ?thesis using small by (simp add: kind_def del: of_nat_add)
  next
    case tag
    then show ?thesis by (auto simp: kind_def)
  qed
qed

lemma array_header_kind: "array_header n = Inr h \<Longrightarrow> \<exists>t r. h = t # r \<and> kind t = 4"
proof -
  assume a: "array_header n = Inr h"
  consider (small) "n < 16" | (tag) "\<exists>t r. h = t # r \<and> t \<in> {0xdc, 0xdd}"
    using a by (auto simp: array_header_def split: if_splits)
  then show ?thesis
  proof cases
    case small
    then have "h = [of_nat (144 + n)]" using a by (simp add: array_header_def)
    moreover have "uint (of_nat (144 + n) :: byte) = int (144 + n)"
      using small by (intro uint_byte_nat) simp
    ultimately show ?thesis using small by (simp add: kind_def del: of_nat_add)
  next
    case tag
    then show ?thesis by (auto simp: kind_def)
  qed
qed

lemma map_header_kind: "map_header n = Inr h \<Longrightarrow> \<exists>t r. h = t # r \<and> kind t = 5"
proof -
  assume a: "map_header n = Inr h"
  consider (small) "n < 16" | (tag) "\<exists>t r. h = t # r \<and> t \<in> {0xde, 0xdf}"
    using a by (auto simp: map_header_def split: if_splits)
  then show ?thesis
  proof cases
    case small
    then have "h = [of_nat (128 + n)]" using a by (simp add: map_header_def)
    moreover have "uint (of_nat (128 + n) :: byte) = int (128 + n)"
      using small by (intro uint_byte_nat) simp
    ultimately show ?thesis using small by (simp add: kind_def del: of_nat_add)
  next
    case tag
    then show ?thesis by (auto simp: kind_def)
  qed
qed

lemma bind_res_Inr: "bind_res m f = Inr y \<Longrightarrow> \<exists>x. m = Inr x \<and> f x = Inr y"
  by (cases m) (simp_all add: bind_res_def)

lemma pack_kind: "pack d v = Inr b \<Longrightarrow> \<exists>t r. b = t # r \<and> kind t = ctor v"
proof -
  assume a: "pack d v = Inr b"
  then obtain d' where d: "d = Suc d'" by (cases d) simp_all
  show ?thesis
  proof (cases v)
    case PNone
    then show ?thesis using a d by (auto simp: kind_def ctor_def)
  next
    case (PBool x)
    then show ?thesis using a d by (auto simp: kind_def ctor_def)
  next
    case (PInt n)
    then show ?thesis using a d pack_int_kind[of n b] by (simp add: ctor_def)
  next
    case (PStr s)
    then show ?thesis using a d pack_str_kind[of s b] by (simp add: ctor_def)
  next
    case (PList xs)
    with a d obtain h bs where "array_header (length xs) = Inr h" "b = h @ concat bs"
      by (auto dest!: bind_res_Inr)
    then show ?thesis using array_header_kind[of "length xs" h] PList by (auto simp: ctor_def)
  next
    case (PDict kvs)
    with a d obtain h bs where "map_header (length kvs) = Inr h" "b = h @ concat bs"
      by (auto dest!: bind_res_Inr)
    then show ?thesis using map_header_kind[of "length kvs" h] PDict by (auto simp: ctor_def)
  qed
qed

lemma pack_same_ctor:
  assumes "pack d v = Inr b" "pack d' v' = Inr b'" "b @ r = b' @ r'"
  shows "ctor v = ctor v'"
proof -
  from pack_kind[OF assms(1)] obtain t s where b: "b = t # s" "kind t = ctor v" by blast
  from pack_kind[OF assms(2)] obtain t' s' where b': "b' = t' # s'" "kind t' = ctor v'" by blast
  from assms(3) b b' have "t = t'" by simp
  with b b' show ?thesis by simp
qed

lemma collect_Cons:
  "collect (map f (x # xs)) = Inr bs \<Longrightarrow>
     \<exists>b bs'. f x = Inr b \<and> collect (map f xs) = Inr bs' \<and> bs = b # bs'"
  by (auto split: sum.splits)

lemma items_inj:
  "(\<And>x d1 d2 v2 b1 b2 r1 r2. x \<in> set xs \<Longrightarrow> pack d1 x = Inr b1 \<Longrightarrow>
                 pack d2 v2 = Inr b2 \<Longrightarrow> b1 @ r1 = b2 @ r2 \<Longrightarrow> x = v2 \<and> r1 = r2) \<Longrightarrow>
   collect (map (pack d) xs) = Inr bs \<Longrightarrow> collect (map (pack d') ys) = Inr cs \<Longrightarrow>
   length xs = length ys \<Longrightarrow> concat bs @ r = concat cs @ r' \<Longrightarrow> xs = ys \<and> r = r'"
proof (induction xs arbitrary: ys bs cs)
  case Nil
  then show ?case by simp
next
  case (Cons x xs)
  note IH = Cons.prems(1) and cb = Cons.prems(2) and cc = Cons.prems(3)
    and len = Cons.prems(4) and eq = Cons.prems(5)
  from len obtain y ys' where ys: "ys = y # ys'" by (cases ys) simp_all
  from collect_Cons[OF cb] obtain b bs' where
    b: "pack d x = Inr b" "collect (map (pack d) xs) = Inr bs'" "bs = b # bs'" by blast
  from collect_Cons[OF cc[unfolded ys]] obtain c cs' where
    c: "pack d' y = Inr c" "collect (map (pack d') ys') = Inr cs'" "cs = c # cs'" by blast
  from eq b(3) c(3) have e: "b @ (concat bs' @ r) = c @ (concat cs' @ r')" by simp
  have "x \<in> set (x # xs)" by simp
  from IH[OF this b(1) c(1) e] have xy: "x = y" and e': "concat bs' @ r = concat cs' @ r'"
    by simp_all
  have l': "length xs = length ys'" using len ys by simp
  have "xs = ys' \<and> r = r'"
  proof (rule Cons.IH[OF _ b(2) c(2) l' e'])
    fix z d1 d2 v2 b1 b2 r1 r2
    assume "z \<in> set xs" "pack d1 z = Inr b1" "pack d2 v2 = Inr b2" "b1 @ r1 = b2 @ r2"
    then show "z = v2 \<and> r1 = r2" using IH[of z d1 b1 d2 v2 b2 r1 r2] by simp
  qed
  with xy ys show ?case by simp
qed

lemma entries_inj:
  "(\<And>k x d1 d2 v2 b1 b2 r1 r2. (k, x) \<in> set kvs \<Longrightarrow> pack d1 x = Inr b1 \<Longrightarrow>
                 pack d2 v2 = Inr b2 \<Longrightarrow> b1 @ r1 = b2 @ r2 \<Longrightarrow> x = v2 \<and> r1 = r2) \<Longrightarrow>
   collect (map (\<lambda>(k, x). bind_res (pack_str k) (\<lambda>kb.
                          bind_res (pack d x) (\<lambda>xb. Inr (kb @ xb)))) kvs) = Inr bs \<Longrightarrow>
   collect (map (\<lambda>(k, x). bind_res (pack_str k) (\<lambda>kb.
                          bind_res (pack d' x) (\<lambda>xb. Inr (kb @ xb)))) kvs') = Inr cs \<Longrightarrow>
   length kvs = length kvs' \<Longrightarrow> concat bs @ r = concat cs @ r' \<Longrightarrow> kvs = kvs' \<and> r = r'"
proof (induction kvs arbitrary: kvs' bs cs)
  case Nil
  then show ?case by simp
next
  case (Cons kv kvs)
  note IH = Cons.prems(1) and cb = Cons.prems(2) and cc = Cons.prems(3)
    and len = Cons.prems(4) and eq = Cons.prems(5)
  obtain k x where kv: "kv = (k, x)" by (cases kv)
  from len obtain kv' rest where kvs': "kvs' = kv' # rest" by (cases kvs') simp_all
  obtain k' x' where kv': "kv' = (k', x')" by (cases kv')
  from collect_Cons[OF cb] kv obtain b bs' kb xb where
    b: "pack_str k = Inr kb" "pack d x = Inr xb" "b = kb @ xb"
       "collect (map (\<lambda>(k, x). bind_res (pack_str k) (\<lambda>kb.
                          bind_res (pack d x) (\<lambda>xb. Inr (kb @ xb)))) kvs) = Inr bs'"
       "bs = b # bs'"
    by (auto dest!: bind_res_Inr)
  from collect_Cons[OF cc[unfolded kvs']] kv' obtain c cs' kc xc where
    c: "pack_str k' = Inr kc" "pack d' x' = Inr xc" "c = kc @ xc"
       "collect (map (\<lambda>(k, x). bind_res (pack_str k) (\<lambda>kb.
                          bind_res (pack d' x) (\<lambda>xb. Inr (kb @ xb)))) rest) = Inr cs'"
       "cs = c # cs'"
    by (auto dest!: bind_res_Inr)
  from eq b(3,5) c(3,5)
  have e: "kb @ (xb @ concat bs' @ r) = kc @ (xc @ concat cs' @ r')" by simp
  from pack_str_inj[OF b(1) c(1) e] have kk: "k = k'" and
    e1: "xb @ (concat bs' @ r) = xc @ (concat cs' @ r')" by simp_all
  have "(k, x) \<in> set (kv # kvs)" using kv by simp
  from IH[OF this b(2) c(2) e1] have xx: "x = x'" and
    e2: "concat bs' @ r = concat cs' @ r'" by simp_all
  have l': "length kvs = length rest" using len kvs' by simp
  have "kvs = rest \<and> r = r'"
  proof (rule Cons.IH[OF _ b(4) c(4) l' e2])
    fix ka z d1 d2 v2 b1 b2 r1 r2
    assume "(ka, z) \<in> set kvs" "pack d1 z = Inr b1" "pack d2 v2 = Inr b2" "b1 @ r1 = b2 @ r2"
    then show "z = v2 \<and> r1 = r2" using IH[of ka z d1 b1 d2 v2 b2 r1 r2] by simp
  qed
  with kk xx kv kv' kvs' show ?case by simp
qed

lemma pack_PNone_inj:
  assumes "pack d1 PNone = Inr b1" "pack d2 v2 = Inr b2" "b1 @ r1 = b2 @ r2"
  shows "PNone = v2 \<and> r1 = r2"
proof -
  from pack_same_ctor[OF assms] have v2: "v2 = PNone" by (cases v2) (simp_all add: ctor_def)
  from assms(1) have b1: "b1 = [0xc0]" by (cases d1) simp_all
  from assms(2) v2 have b2: "b2 = [0xc0]" by (cases d2) simp_all
  from assms(3) b1 b2 v2 show ?thesis by simp
qed

lemma pack_PBool_inj:
  assumes "pack d1 (PBool x) = Inr b1" "pack d2 v2 = Inr b2" "b1 @ r1 = b2 @ r2"
  shows "PBool x = v2 \<and> r1 = r2"
proof -
  from pack_same_ctor[OF assms] obtain y where v2: "v2 = PBool y"
    by (cases v2) (simp_all add: ctor_def)
  from assms(1) have b1: "b1 = [if x then 0xc3 else 0xc2]" by (cases d1) simp_all
  from assms(2) v2 have b2: "b2 = [if y then 0xc3 else 0xc2]" by (cases d2) simp_all
  from assms(3) b1 b2 have "r1 = r2" "x = y" by (simp_all split: if_splits)
  with v2 show ?thesis by simp
qed

lemma pack_PInt_inj:
  assumes "pack d1 (PInt n) = Inr b1" "pack d2 v2 = Inr b2" "b1 @ r1 = b2 @ r2"
  shows "PInt n = v2 \<and> r1 = r2"
proof -
  from pack_same_ctor[OF assms] obtain m where v2: "v2 = PInt m"
    by (cases v2) (simp_all add: ctor_def)
  from assms(1) have b1: "pack_int n = Inr b1" by (cases d1) simp_all
  from assms(2) v2 have b2: "pack_int m = Inr b2" by (cases d2) simp_all
  from pack_int_inj[OF b1 b2 assms(3)] v2 show ?thesis by simp
qed

lemma pack_PStr_inj:
  assumes "pack d1 (PStr s) = Inr b1" "pack d2 v2 = Inr b2" "b1 @ r1 = b2 @ r2"
  shows "PStr s = v2 \<and> r1 = r2"
proof -
  from pack_same_ctor[OF assms] obtain t where v2: "v2 = PStr t"
    by (cases v2) (simp_all add: ctor_def)
  from assms(1) have b1: "pack_str s = Inr b1" by (cases d1) simp_all
  from assms(2) v2 have b2: "pack_str t = Inr b2" by (cases d2) simp_all
  from pack_str_inj[OF b1 b2 assms(3)] v2 show ?thesis by simp
qed

lemma pack_PList_D:
  assumes "pack d (PList xs) = Inr b"
  shows "\<exists>e h bs. d = Suc e \<and> array_header (length xs) = Inr h
           \<and> collect (map (pack e) xs) = Inr bs \<and> b = h @ concat bs"
proof -
  from assms obtain e where d: "d = Suc e" by (cases d) simp_all
  from assms[unfolded d] have
    "bind_res (array_header (length xs)) (\<lambda>h.
       bind_res (collect (map (pack e) xs)) (\<lambda>bs. Inr (h @ concat bs))) = Inr b"
    by simp
  from bind_res_Inr[OF this] obtain h where h: "array_header (length xs) = Inr h"
    "bind_res (collect (map (pack e) xs)) (\<lambda>bs. Inr (h @ concat bs)) = Inr b" by blast
  from bind_res_Inr[OF h(2)] obtain bs where "collect (map (pack e) xs) = Inr bs"
    "b = h @ concat bs" by auto
  with d h(1) show ?thesis by blast
qed

lemma pack_PDict_D:
  assumes "pack d (PDict kvs) = Inr b"
  shows "\<exists>e h bs. d = Suc e \<and> map_header (length kvs) = Inr h
           \<and> collect (map (\<lambda>(k, x). bind_res (pack_str k) (\<lambda>kb.
                          bind_res (pack e x) (\<lambda>xb. Inr (kb @ xb)))) kvs) = Inr bs
           \<and> b = h @ concat bs"
proof -
  from assms obtain e where d: "d = Suc e" by (cases d) simp_all
  from assms[unfolded d] have
    "bind_res (map_header (length kvs)) (\<lambda>h.
       bind_res (collect (map (\<lambda>(k, x). bind_res (pack_str k) (\<lambda>kb.
                          bind_res (pack e x) (\<lambda>xb. Inr (kb @ xb)))) kvs))
         (\<lambda>bs. Inr (h @ concat bs))) = Inr b"
    by simp
  from bind_res_Inr[OF this] obtain h where h: "map_header (length kvs) = Inr h"
    "bind_res (collect (map (\<lambda>(k, x). bind_res (pack_str k) (\<lambda>kb.
                          bind_res (pack e x) (\<lambda>xb. Inr (kb @ xb)))) kvs))
         (\<lambda>bs. Inr (h @ concat bs)) = Inr b" by blast
  from bind_res_Inr[OF h(2)] obtain bs where
    "collect (map (\<lambda>(k, x). bind_res (pack_str k) (\<lambda>kb.
                          bind_res (pack e x) (\<lambda>xb. Inr (kb @ xb)))) kvs) = Inr bs"
    "b = h @ concat bs" by auto
  with d h(1) show ?thesis by blast
qed

lemma pack_inj:
  "pack d1 v1 = Inr b1 \<Longrightarrow> pack d2 v2 = Inr b2 \<Longrightarrow> b1 @ r1 = b2 @ r2 \<Longrightarrow> v1 = v2 \<and> r1 = r2"
proof (induction v1 arbitrary: d1 d2 v2 b1 b2 r1 r2)
  case PNone
  then show ?case by (rule pack_PNone_inj)
next
  case (PBool x)
  then show ?case by (rule pack_PBool_inj)
next
  case (PInt n)
  then show ?case by (rule pack_PInt_inj)
next
  case (PStr s)
  then show ?case by (rule pack_PStr_inj)
next
  case (PList xs)
  note IH = PList(1) and p1 = PList(2) and p2 = PList(3) and eq = PList(4)
  from pack_same_ctor[OF p1 p2 eq] obtain ys where v2: "v2 = PList ys"
    by (cases v2) (simp_all add: ctor_def)
  from pack_PList_D[OF p1] obtain e1 h bs where
    h: "array_header (length xs) = Inr h" "collect (map (pack e1) xs) = Inr bs"
       "b1 = h @ concat bs" by blast
  from pack_PList_D[OF p2[unfolded v2]] obtain e2 h' cs where
    h': "array_header (length ys) = Inr h'" "collect (map (pack e2) ys) = Inr cs"
        "b2 = h' @ concat cs" by blast
  from eq h(3) h'(3) have e: "h @ (concat bs @ r1) = h' @ (concat cs @ r2)" by simp
  from array_header_inj[OF h(1) h'(1) e] have l: "length xs = length ys" and
    e': "concat bs @ r1 = concat cs @ r2" by simp_all
  have "xs = ys \<and> r1 = r2"
  proof (rule items_inj[OF _ h(2) h'(2) l e'])
    fix x d1 d2 v2 b1 b2 r1 r2
    assume "x \<in> set xs" "pack d1 x = Inr b1" "pack d2 v2 = Inr b2" "b1 @ r1 = b2 @ r2"
    then show "x = v2 \<and> r1 = r2" by (rule IH)
  qed
  with v2 show ?case by simp
next
  case (PDict kvs)
  note IH = PDict(1) and p1 = PDict(2) and p2 = PDict(3) and eq = PDict(4)
  from pack_same_ctor[OF p1 p2 eq] obtain kvs' where v2: "v2 = PDict kvs'"
    by (cases v2) (simp_all add: ctor_def)
  from pack_PDict_D[OF p1] obtain e1 h bs where
    h: "map_header (length kvs) = Inr h"
       "collect (map (\<lambda>(k, x). bind_res (pack_str k) (\<lambda>kb.
                          bind_res (pack e1 x) (\<lambda>xb. Inr (kb @ xb)))) kvs) = Inr bs"
       "b1 = h @ concat bs" by blast
  from pack_PDict_D[OF p2[unfolded v2]] obtain e2 h' cs where
    h': "map_header (length kvs') = Inr h'"
        "collect (map (\<lambda>(k, x). bind_res (pack_str k) (\<lambda>kb.
                          bind_res (pack e2 x) (\<lambda>xb. Inr (kb @ xb)))) kvs') = Inr cs"
        "b2 = h' @ concat cs" by blast
  from eq h(3) h'(3) have e: "h @ (concat bs @ r1) = h' @ (concat cs @ r2)" by simp
  from map_header_inj[OF h(1) h'(1) e] have l: "length kvs = length kvs'" and
    e': "concat bs @ r1 = concat cs @ r2" by simp_all
  have "kvs = kvs' \<and> r1 = r2"
  proof (rule entries_inj[OF _ h(2) h'(2) l e'])
    fix k x d1 d2 v2 b1 b2 r1 r2
    assume a: "(k, x) \<in> set kvs" "pack d1 x = Inr b1" "pack d2 v2 = Inr b2" "b1 @ r1 = b2 @ r2"
    have "x \<in> Basic_BNFs.snds (k, x)" by simp
    from IH[OF a(1) this a(2) a(3) a(4)] show "x = v2 \<and> r1 = r2" .
  qed
  with v2 show ?case by simp
qed

lemma msgpack_packb_inj:
  "msgpack_packb a1 = Inr b \<Longrightarrow> msgpack_packb a2 = Inr b \<Longrightarrow> a1 = a2"
  unfolding msgpack_packb_def using pack_inj[of 512 a1 b 512 a2 b "[]" "[]"] by simp

text \<open>
  Claim C3, as the code has it. The serialisation keeps the order in which the caller
  inserted the fields: two actions that both serialise have byte-identical
  serialisations exactly when they are the same keys and values in the same order.
  Actions with the same key-value pairs in a different order therefore serialise to
  different bytes, and \<open>action_hash\<close> digests different byte strings for them.
\<close>

theorem serialization_keeps_field_order:
  assumes "msgpack_packb a1 = Inr b1" and "msgpack_packb a2 = Inr b2"
  shows "(b1 = b2) = (a1 = a2)"
  using assms msgpack_packb_inj[of a1 b1 a2] by auto

theorem serialization_keeps_field_order_witness:
  "msgpack_packb (PDict [(''type'', PStr ''order''), (''grouping'', PStr ''na'')])
     = Inr [130, 164, 116, 121, 112, 101, 165, 111, 114, 100, 101, 114, 168, 103,
            114, 111, 117, 112, 105, 110, 103, 162, 110, 97]
   \<and> msgpack_packb (PDict [(''grouping'', PStr ''na''), (''type'', PStr ''order'')])
     = Inr [130, 168, 103, 114, 111, 117, 112, 105, 110, 103, 162, 110, 97, 164, 116,
            121, 112, 101, 165, 111, 114, 100, 101, 114]
   \<and> (([130, 164, 116, 121, 112, 101, 165, 111, 114, 100, 101, 114, 168, 103,
         114, 111, 117, 112, 105, 110, 103, 162, 110, 97] :: bytes)
        = [130, 168, 103, 114, 111, 117, 112, 105, 110, 103, 162, 110, 97, 164, 116,
           121, 112, 101, 165, 111, 114, 100, 101, 114])
       = (PDict [(''type'', PStr ''order''), (''grouping'', PStr ''na'')]
          = PDict [(''grouping'', PStr ''na''), (''type'', PStr ''order'')])"
proof -
  have h1: "msgpack_packb (PDict [(''type'', PStr ''order''), (''grouping'', PStr ''na'')])
     = Inr [130, 164, 116, 121, 112, 101, 165, 111, 114, 100, 101, 114, 168, 103,
            114, 111, 117, 112, 105, 110, 103, 162, 110, 97]"
    by code_simp
  have h2: "msgpack_packb (PDict [(''grouping'', PStr ''na''), (''type'', PStr ''order'')])
     = Inr [130, 168, 103, 114, 111, 117, 112, 105, 110, 103, 162, 110, 97, 164, 116,
            121, 112, 101, 165, 111, 114, 100, 101, 114]"
    by code_simp
  from serialization_keeps_field_order[OF h1 h2] h1 h2 show ?thesis by blast
qed

text \<open>
  Claim C3, as stated, fails: the two field orders of the same two key-value pairs
  serialise differently.
\<close>

theorem reordered_action_serializes_differently:
  "same_fields (PDict [(''type'', PStr ''order''), (''grouping'', PStr ''na'')])
               (PDict [(''grouping'', PStr ''na''), (''type'', PStr ''order'')])
   \<and> msgpack_packb (PDict [(''type'', PStr ''order''), (''grouping'', PStr ''na'')])
     \<noteq> msgpack_packb (PDict [(''grouping'', PStr ''na''), (''type'', PStr ''order'')])"
  by code_simp

section \<open>Signing\<close>



lemma bot_address_to_bytes_eq: "bot_address_to_bytes = address_to_bytes"
  by (rule ext) (simp add: bot_address_to_bytes_def address_to_bytes_def)

lemma bot_action_hash_eq: "bot_action_hash L a v n e = action_hash L a v n e"
  unfolding bot_action_hash_def action_hash_def bot_address_to_bytes_eq by (rule refl)

lemma bot_construct_phantom_agent_eq: "bot_construct_phantom_agent h m = construct_phantom_agent h m"
  unfolding bot_construct_phantom_agent_def construct_phantom_agent_def by (rule refl)

lemma bot_l1_payload_eq: "bot_l1_payload p = l1_payload p"
  unfolding bot_l1_payload_def l1_payload_def by (rule refl)

text \<open>
  Claim C9. For every private key, action, vault address, nonce, expiry and mainnet
  flag, the bot's method returns what the script's function returns on the account
  built from the same key: the same signature, or the same exception. The two log
  lines of the method do not influence the result.
\<close>

theorem bot_sign_refines_script:
  "fst (bot_sign_l1_action_exact L self action vault_address nonce expires_after is_mainnet w)
     = bind_res (from_key L (private_key self)) (\<lambda>wallet.
         sign_l1_action_exact L wallet action vault_address nonce expires_after is_mainnet)"
proof (cases "from_key L (private_key self)")
  case (Inl e)
  then show ?thesis by (simp add: bot_sign_l1_action_exact_def bind_res_def)
next
  case (Inr account)
  then show ?thesis
    unfolding bot_sign_l1_action_exact_def sign_l1_action_exact_def
      bot_action_hash_eq bot_construct_phantom_agent_eq bot_l1_payload_eq
    by (simp add: bind_res_def Let_def)
qed

section \<open>The effects of the bot's steps\<close>

lemma bind_ioE:
  assumes "bind_io m f w = (r, w')"
  obtains (raised) e where "m w = (Inl e, w')" "r = Inl e"
        | (returned) x w1 where "m w = (Inr x, w1)" "f x w1 = (r, w')"
  using assms unfolding bind_io_def by (auto split: prod.splits sum.splits)

lemma posted_trans: "posted ps w w1 \<Longrightarrow> posted qs w1 w2 \<Longrightarrow> posted (ps @ qs) w w2"
  by (simp add: posted_def add.commute)

lemma posted_refl [simp]: "posted [] w w"
  by (simp add: posted_def)

lemma requests_post_posted: "requests_post url body w = (r, w') \<Longrightarrow> posted [(url, body)] w w'"
  by (auto simp: requests_post_def posted_def Let_def drop_Suc split: list.splits response.splits)

lemma log_io_posted: "log_io l msg w = (r, w') \<Longrightarrow> r = Inr () \<and> posted [] w w'"
  by (auto simp: log_io_def logger_def posted_def)

lemma logger_posted [simp]: "posted ps w (logger l msg w') = posted ps w w'"
  by (simp add: posted_def logger_def)

lemma bot_get_asset_id_posted:
  "bot_get_asset_id coin w = (r, w') \<Longrightarrow> posted [(info_url, meta_request)] w w'"
  unfolding bot_get_asset_id_def
  by (auto simp: bind_io_def lift_res_def log_io_def return_io_def
           split: prod.splits sum.splits option.splits if_splits
           dest!: requests_post_posted)

lemma py_round_bounds: "\<bar>of_int (py_round x) - x\<bar> \<le> 1 / 2"
proof -
  have "of_int \<lfloor>x\<rfloor> \<le> x" "x < of_int \<lfloor>x\<rfloor> + 1" by linarith+
  then show ?thesis
    unfolding py_round_def Let_def by (auto simp: abs_le_iff) 
qed

lemma py_round_of_int [simp]: "py_round (of_int n) = n"
  by (simp add: py_round_def)

lemma band_limit_within:
  "\<bar>band_limit is_buy price ref - ref\<bar> \<le> \<bar>ref\<bar> * (5 / 100)"
  unfolding band_limit_def Let_def by (auto simp: min_def max_def abs_if split: if_splits)

lemma band_limit_buy: "0 \<le> ref \<Longrightarrow> band_limit True price ref \<le> ref + ref * (25 / 1000)"
  unfolding band_limit_def Let_def by (auto simp: min_def max_def)

lemma band_limit_sell: "0 \<le> ref \<Longrightarrow> ref - ref * (25 / 1000) \<le> band_limit False price ref"
  unfolding band_limit_def Let_def by (auto simp: min_def max_def)

lemma in_band_band_limit: "in_band is_buy ref (band_limit is_buy price ref)"
  using band_limit_within[of is_buy price ref] band_limit_buy[of ref price]
    band_limit_sell[of ref price]
  by (cases is_buy) (simp_all add: in_band_def)

lemma in_band_refl: "in_band is_buy p p"
  by (simp add: in_band_def)

lemma reference_limit_price_posted:
  assumes "reference_limit_price L coin is_buy price w = ((limit, refo), w')"
  shows "posted [(info_url, meta_request)] w w'"
    and "refo = Some ref \<Longrightarrow> in_band is_buy ref limit"
proof -
  obtain r w1 where p: "requests_post info_url meta_request
      (logger INFO ''Getting reference price from Hyperliquid...'' w) = (r, w1)"
    by (cases "requests_post info_url meta_request
      (logger INFO ''Getting reference price from Hyperliquid...'' w)") auto
  from requests_post_posted[OF p] have fr: "posted [(info_url, meta_request)] w w1"
    by (simp add: posted_def logger_def)
  from assms p fr show "posted [(info_url, meta_request)] w w'"
    unfolding reference_limit_price_def Let_def
    by (auto split: sum.splits prod.splits if_splits)
  assume "refo = Some ref"
  with assms p show "in_band is_buy ref limit"
    unfolding reference_limit_price_def Let_def
    by (auto simp: in_band_band_limit in_band_refl split: sum.splits prod.splits if_splits)
qed

lemma default_tick_value: "default_tick a = (t, p) \<Longrightarrow> num_value t = 1 / 10 ^ p"
  by (auto simp: default_tick_def default_tick_sizes_def default_precision_def num_value_def
           split: if_splits)

lemma safe_fallback_tick_value: "safe_fallback_tick a = (t, p) \<Longrightarrow> num_value t = 1 / 10 ^ p"
  by (auto simp: safe_fallback_tick_def num_value_def split: if_splits)

lemma market_tick_value: "market_tick L a md = Inr (Some (t, p)) \<Longrightarrow> num_value t = 1 / 10 ^ p"
  by (auto simp: market_tick_def bind_res_def num_value_def Let_def
           split: option.splits sum.splits if_splits)

lemma tick_posted:
  assumes "bot_get_tick_size_and_precision L a w = ((t, p), w')"
  shows "posted [(info_url, all_mids_request)] w w'" and "num_value t = 1 / 10 ^ p"
proof -
  obtain r w1 where q: "requests_post info_url all_mids_request w = (r, w1)"
    by (cases "requests_post info_url all_mids_request w") auto
  from assms q requests_post_posted[OF q] show "posted [(info_url, all_mids_request)] w w'"
    unfolding bot_get_tick_size_and_precision_def
    by (auto split: sum.splits prod.splits option.splits if_splits)
  from assms q show "num_value t = 1 / 10 ^ p"
    unfolding bot_get_tick_size_and_precision_def
    by (auto simp: default_tick_value safe_fallback_tick_value bind_res_def
             dest: market_tick_value
             split: sum.splits prod.splits option.splits if_splits)
qed

lemma sign_posted:
  "bot_sign_l1_action_exact L self action v n e m w = (r, w') \<Longrightarrow> posted [] w w'"
  by (auto simp: bot_sign_l1_action_exact_def Let_def split: sum.splits)

lemma round_to_tick_value:
  assumes "round_to_tick limit t p = Inr q" "num_value t = 1 / 10 ^ p"
  shows "q = round_ndigits (int_times (py_round (limit / num_value t)) t) p"
    and "\<bar>price_value q - limit\<bar> \<le> num_value t / 2"
proof -
  show q: "q = round_ndigits (int_times (py_round (limit / num_value t)) t) p"
    using assms by (simp add: round_to_tick_def split: if_splits)
  let ?N = "py_round (limit / num_value t)"
  have pos: "0 < num_value t" using assms(2) by simp
  have v: "price_value q = of_int ?N * num_value t"
  proof (cases t)
    case (PyInt i)
    then show ?thesis using q by (simp add: round_ndigits_def int_times_def price_value_def num_value_def)
  next
    case (PyFloat x)
    then have x: "x = 1 / 10 ^ p" using assms(2) by (simp add: num_value_def)
    have "of_int ?N * x * 10 ^ p = (of_int ?N :: rat)" by (simp add: x)
    then have "py_round (of_int ?N * x * 10 ^ p) = ?N" by (simp only: py_round_of_int)
    then show ?thesis using q PyFloat x
      by (simp add: round_ndigits_def int_times_def price_value_def dec_value_def num_value_def)
  qed
  have "\<bar>of_int ?N - limit / num_value t\<bar> \<le> 1 / 2" by (rule py_round_bounds)
  then have "\<bar>of_int ?N - limit / num_value t\<bar> * num_value t \<le> 1 / 2 * num_value t"
    using pos by (simp add: mult_right_mono)
  moreover have "(of_int ?N - limit / num_value t) * num_value t = of_int ?N * num_value t - limit"
    using pos by (simp add: left_diff_distrib)
  then have "\<bar>of_int ?N - limit / num_value t\<bar> * num_value t = \<bar>of_int ?N * num_value t - limit\<bar>"
    using pos by (metis abs_mult abs_of_pos)
  ultimately show "\<bar>price_value q - limit\<bar> \<le> num_value t / 2" using v by simp
qed

lemma info_onlyD:
  "info_only m \<Longrightarrow> m w = (r, w') \<Longrightarrow> \<exists>ps. sent w' = sent w @ ps \<and> (\<forall>p\<in>set ps. fst p = info_url)"
  unfolding info_only_def by blast

lemma info_only_return: "info_only (return_io x)"
  by (simp add: info_only_def return_io_def)

lemma info_only_raise: "info_only (raise_io e)"
  by (simp add: info_only_def raise_io_def)

lemma info_only_lift_res: "info_only (lift_res r)"
  by (simp add: info_only_def lift_res_def)

lemma info_only_log: "info_only (log_io l msg)"
  by (simp add: info_only_def log_io_def logger_def)

lemma info_only_now: "info_only (\<lambda>w. (Inr (now_ms w), w))"
  by (simp add: info_only_def)

lemma info_only_bind:
  assumes "info_only m" "\<And>x. info_only (f x)"
  shows "info_only (bind_io m f)"
proof (unfold info_only_def, intro allI impI)
  fix w r w' assume h: "bind_io m f w = (r, w')"
  then show "\<exists>ps. sent w' = sent w @ ps \<and> (\<forall>p\<in>set ps. fst p = info_url)"
  proof (cases rule: bind_ioE)
    case (raised e)
    then show ?thesis using info_onlyD[OF assms(1)] by blast
  next
    case (returned x w1)
    from info_onlyD[OF assms(1) returned(1)] obtain ps where
      ps: "sent w1 = sent w @ ps" "\<forall>p\<in>set ps. fst p = info_url" by blast
    from info_onlyD[OF assms(2) returned(2)] obtain qs where
      qs: "sent w' = sent w1 @ qs" "\<forall>p\<in>set qs. fst p = info_url" by blast
    show ?thesis using ps qs by (intro exI[of _ "ps @ qs"]) auto
  qed
qed

lemma info_only_posted:
  assumes "\<And>w r w'. f w = (r, w') \<Longrightarrow> posted ps w w'" "\<forall>p\<in>set ps. fst p = info_url"
  shows "info_only (lift_total f)"
  unfolding info_only_def lift_total_def
  using assms by (fastforce simp: posted_def split: prod.splits)

lemma info_only_sign: "info_only (bot_sign_l1_action_exact L self action v n e m)"
  unfolding info_only_def using sign_posted by (fastforce simp: posted_def)

lemma info_only_case_option:
  "info_only a \<Longrightarrow> (\<And>y. info_only (b y)) \<Longrightarrow> info_only (case x of None \<Rightarrow> a | Some y \<Rightarrow> b y)"
  by (cases x) auto

lemma info_only_case_prod:
  "(\<And>a b. info_only (f a b)) \<Longrightarrow> info_only (case p of (a, b) \<Rightarrow> f a b)"
  by (cases p) auto

lemma info_only_if:
  "info_only a \<Longrightarrow> info_only b \<Longrightarrow> info_only (if c then a else b)"
  by simp

lemma info_only_get_asset_id: "info_only (lift_total (bot_get_asset_id coin))"
  by (rule info_only_posted[OF bot_get_asset_id_posted]) simp_all

lemma info_only_reference: "info_only (lift_total (reference_limit_price L coin b price))"
  by (rule info_only_posted[where ps="[(info_url, meta_request)]"])
     (auto dest: reference_limit_price_posted(1))

lemma info_only_tick: "info_only (lift_total (bot_get_tick_size_and_precision L a))"
  by (rule info_only_posted[where ps="[(info_url, all_mids_request)]"])
     (auto dest: tick_posted(1))

lemmas info_only_rules =
  info_only_bind info_only_return info_only_raise info_only_lift_res info_only_log
  info_only_now info_only_sign info_only_case_option info_only_case_prod info_only_if
  info_only_get_asset_id info_only_reference info_only_tick

lemma info_only_prepare_order: "info_only (prepare_order L self coin side sz price)"
  unfolding prepare_order_def by (intro info_only_rules)

lemma bind_io_InrD:
  "bind_io m f w = (Inr y, w') \<Longrightarrow> \<exists>x w1. m w = (Inr x, w1) \<and> f x w1 = (Inr y, w')"
  unfolding bind_io_def by (auto split: prod.splits sum.splits)

lemma lift_total_D: "lift_total f w = (Inr x, w') \<Longrightarrow> f w = (x, w')"
  by (auto simp: lift_total_def split: prod.splits)

lemma prepare_order_result:
  assumes "prepare_order L self coin side sz price w = (Inr (Some payload), w')"
  shows "\<exists>asset_id limit ref tick prec sg w0 wa wb wc wf.
           bot_get_asset_id coin w0 = (Some asset_id, wa)
         \<and> responses w0 = responses w
         \<and> reference_limit_price L coin (lower side = ''buy'') price wa = ((limit, Some ref), wb)
         \<and> responses wa = drop 1 (responses w)
         \<and> bot_get_tick_size_and_precision L asset_id wb = ((tick, prec), wc)
         \<and> responses wb = drop 2 (responses w)
         \<and> fst (bot_sign_l1_action_exact L self
                 (order_action coin asset_id (lower side = ''buy'')
                    (round_ndigits (int_times (py_round (limit / num_value tick)) tick) prec) sz)
                 None (now_ms w) None True wf) = Inr sg
         \<and> in_band (lower side = ''buy'') ref limit
         \<and> num_value tick = 1 / 10 ^ prec
         \<and> payload = signed_payload
               (order_action coin asset_id (lower side = ''buy'')
                  (round_ndigits (int_times (py_round (limit / num_value tick)) tick) prec) sz)
               (now_ms w) sg
         \<and> \<bar>price_value (round_ndigits (int_times (py_round (limit / num_value tick)) tick) prec)
              - limit\<bar> \<le> num_value tick / 2
         \<and> posted [(info_url, meta_request), (info_url, meta_request), (info_url, all_mids_request)] w w'"
proof -
  let ?b = "lower side = ''buy''"
  from assms[unfolded prepare_order_def] obtain u0 w0 where
    s0: "log_io INFO ''EXECUTING REAL ORDER'' w = (Inr u0, w0)" and
    r0: "bind_io (lift_total (bot_get_asset_id coin)) (\<lambda>found.
       case found of
         None \<Rightarrow> bind_io (log_io ERROR ''Could not find asset ID'') (\<lambda>_. return_io None)
       | Some asset_id \<Rightarrow>
           bind_io (lift_total (reference_limit_price L coin ?b price))
             (\<lambda>(limit_price, reference_price).
           bind_io (lift_total (bot_get_tick_size_and_precision L asset_id))
             (\<lambda>(tick_size, precision).
           bind_io (lift_res (round_to_tick limit_price tick_size precision)) (\<lambda>limit_price.
           bind_io (case reference_price of
                      None \<Rightarrow> raise_io UnboundLocalError
                    | Some r \<Rightarrow> log_io INFO ''Using limit price'') (\<lambda>_.
           bind_io (\<lambda>w. (Inr (now_ms w), w)) (\<lambda>nonce.
           bind_io (log_io INFO ''Firmando con esquema EIP-712 exacto...'') (\<lambda>_.
           bind_io (bot_sign_l1_action_exact L self
                      (order_action coin asset_id ?b limit_price sz)
                      None nonce None True) (\<lambda>sg.
           bind_io (log_io INFO ''Firma EIP-712 generada correctamente'') (\<lambda>_.
           bind_io (log_io INFO ''Payload completo'') (\<lambda>_.
           return_io (Some (signed_payload
              (order_action coin asset_id ?b limit_price sz)
              nonce sg)))))))))))) w0 = (Inr (Some payload), w')"
    by (blast dest: bind_io_InrD)
  have p0: "posted [] w w0" using log_io_posted[OF s0] by simp
  from bind_io_InrD[OF r0] obtain found wa where
    s1: "bot_get_asset_id coin w0 = (found, wa)" and
    r1: "(case found of
         None \<Rightarrow> bind_io (log_io ERROR ''Could not find asset ID'') (\<lambda>_. return_io None)
       | Some asset_id \<Rightarrow>
           bind_io (lift_total (reference_limit_price L coin ?b price))
             (\<lambda>(limit_price, reference_price).
           bind_io (lift_total (bot_get_tick_size_and_precision L asset_id))
             (\<lambda>(tick_size, precision).
           bind_io (lift_res (round_to_tick limit_price tick_size precision)) (\<lambda>limit_price.
           bind_io (case reference_price of
                      None \<Rightarrow> raise_io UnboundLocalError
                    | Some r \<Rightarrow> log_io INFO ''Using limit price'') (\<lambda>_.
           bind_io (\<lambda>w. (Inr (now_ms w), w)) (\<lambda>nonce.
           bind_io (log_io INFO ''Firmando con esquema EIP-712 exacto...'') (\<lambda>_.
           bind_io (bot_sign_l1_action_exact L self
                      (order_action coin asset_id ?b limit_price sz)
                      None nonce None True) (\<lambda>sg.
           bind_io (log_io INFO ''Firma EIP-712 generada correctamente'') (\<lambda>_.
           bind_io (log_io INFO ''Payload completo'') (\<lambda>_.
           return_io (Some (signed_payload
              (order_action coin asset_id ?b limit_price sz)
              nonce sg)))))))))))) wa = (Inr (Some payload), w')"
    by (blast dest: lift_total_D)
  have p1: "posted [(info_url, meta_request)] w wa"
    using posted_trans[OF p0 bot_get_asset_id_posted[OF s1]] by simp
  obtain asset_id where found: "found = Some asset_id"
    using r1 by (cases found) (auto simp: bind_io_def log_io_def return_io_def)
  from r1[unfolded found option.case] obtain lr wb where
    s2: "reference_limit_price L coin ?b price wa = (lr, wb)" and
    r2: "(case lr of (limit_price, reference_price) \<Rightarrow>
           bind_io (lift_total (bot_get_tick_size_and_precision L asset_id))
             (\<lambda>(tick_size, precision).
           bind_io (lift_res (round_to_tick limit_price tick_size precision)) (\<lambda>limit_price.
           bind_io (case reference_price of
                      None \<Rightarrow> raise_io UnboundLocalError
                    | Some r \<Rightarrow> log_io INFO ''Using limit price'') (\<lambda>_.
           bind_io (\<lambda>w. (Inr (now_ms w), w)) (\<lambda>nonce.
           bind_io (log_io INFO ''Firmando con esquema EIP-712 exacto...'') (\<lambda>_.
           bind_io (bot_sign_l1_action_exact L self
                      (order_action coin asset_id ?b limit_price sz)
                      None nonce None True) (\<lambda>sg.
           bind_io (log_io INFO ''Firma EIP-712 generada correctamente'') (\<lambda>_.
           bind_io (log_io INFO ''Payload completo'') (\<lambda>_.
           return_io (Some (signed_payload
              (order_action coin asset_id ?b limit_price sz)
              nonce sg))))))))))) wb = (Inr (Some payload), w')"
    by (blast dest: bind_io_InrD lift_total_D)
  obtain limit refo where lr: "lr = (limit, refo)" by (cases lr)
  from r2[unfolded lr prod.case] obtain tp wc where
    s3: "bot_get_tick_size_and_precision L asset_id wb = (tp, wc)" and
    r3: "(case tp of (tick_size, precision) \<Rightarrow>
           bind_io (lift_res (round_to_tick limit tick_size precision)) (\<lambda>limit_price.
           bind_io (case refo of
                      None \<Rightarrow> raise_io UnboundLocalError
                    | Some r \<Rightarrow> log_io INFO ''Using limit price'') (\<lambda>_.
           bind_io (\<lambda>w. (Inr (now_ms w), w)) (\<lambda>nonce.
           bind_io (log_io INFO ''Firmando con esquema EIP-712 exacto...'') (\<lambda>_.
           bind_io (bot_sign_l1_action_exact L self
                      (order_action coin asset_id ?b limit_price sz)
                      None nonce None True) (\<lambda>sg.
           bind_io (log_io INFO ''Firma EIP-712 generada correctamente'') (\<lambda>_.
           bind_io (log_io INFO ''Payload completo'') (\<lambda>_.
           return_io (Some (signed_payload
              (order_action coin asset_id ?b limit_price sz)
              nonce sg)))))))))) wc = (Inr (Some payload), w')"
    by (blast dest: bind_io_InrD lift_total_D)
  obtain tick prec where tp: "tp = (tick, prec)" by (cases tp)
  note tk = tick_posted[OF s3[unfolded tp]]
  from r3[unfolded tp prod.case] obtain q wd where
    s4: "lift_res (round_to_tick limit tick prec) wc = (Inr q, wd)" and
    r4: "bind_io (case refo of
                      None \<Rightarrow> raise_io UnboundLocalError
                    | Some r \<Rightarrow> log_io INFO ''Using limit price'') (\<lambda>_.
           bind_io (\<lambda>w. (Inr (now_ms w), w)) (\<lambda>nonce.
           bind_io (log_io INFO ''Firmando con esquema EIP-712 exacto...'') (\<lambda>_.
           bind_io (bot_sign_l1_action_exact L self
                      (order_action coin asset_id ?b q sz)
                      None nonce None True) (\<lambda>sg.
           bind_io (log_io INFO ''Firma EIP-712 generada correctamente'') (\<lambda>_.
           bind_io (log_io INFO ''Payload completo'') (\<lambda>_.
           return_io (Some (signed_payload
              (order_action coin asset_id ?b q sz)
              nonce sg)))))))) wd = (Inr (Some payload), w')"
    by (blast dest: bind_io_InrD)
  from s4 have q: "round_to_tick limit tick prec = Inr q" and wd: "wd = wc"
    by (auto simp: lift_res_def)
  note rt = round_to_tick_value[OF q tk(2)]
  from bind_io_InrD[OF r4] obtain u5 we where
    s5: "(case refo of None \<Rightarrow> raise_io UnboundLocalError
          | Some r \<Rightarrow> log_io INFO ''Using limit price'') wd = (Inr u5, we)" and
    r5: "bind_io (\<lambda>w. (Inr (now_ms w), w)) (\<lambda>nonce.
           bind_io (log_io INFO ''Firmando con esquema EIP-712 exacto...'') (\<lambda>_.
           bind_io (bot_sign_l1_action_exact L self
                      (order_action coin asset_id ?b q sz)
                      None nonce None True) (\<lambda>sg.
           bind_io (log_io INFO ''Firma EIP-712 generada correctamente'') (\<lambda>_.
           bind_io (log_io INFO ''Payload completo'') (\<lambda>_.
           return_io (Some (signed_payload
              (order_action coin asset_id ?b q sz)
              nonce sg))))))) we = (Inr (Some payload), w')"
    by blast
  from s5 obtain ref where refo: "refo = Some ref" and pe: "posted [] wd we"
    by (cases refo) (auto simp: raise_io_def dest: log_io_posted)
  from bind_io_InrD[OF r5] have
    r6: "bind_io (log_io INFO ''Firmando con esquema EIP-712 exacto...'') (\<lambda>_.
           bind_io (bot_sign_l1_action_exact L self
                      (order_action coin asset_id ?b q sz)
                      None (now_ms we) None True) (\<lambda>sg.
           bind_io (log_io INFO ''Firma EIP-712 generada correctamente'') (\<lambda>_.
           bind_io (log_io INFO ''Payload completo'') (\<lambda>_.
           return_io (Some (signed_payload
              (order_action coin asset_id ?b q sz)
              (now_ms we) sg)))))) we = (Inr (Some payload), w')"
    by auto
  from bind_io_InrD[OF r6] obtain u7 wf where
    s7: "log_io INFO ''Firmando con esquema EIP-712 exacto...'' we = (Inr u7, wf)" and
    r7: "bind_io (bot_sign_l1_action_exact L self
                      (order_action coin asset_id ?b q sz)
                      None (now_ms we) None True) (\<lambda>sg.
           bind_io (log_io INFO ''Firma EIP-712 generada correctamente'') (\<lambda>_.
           bind_io (log_io INFO ''Payload completo'') (\<lambda>_.
           return_io (Some (signed_payload
              (order_action coin asset_id ?b q sz)
              (now_ms we) sg))))) wf = (Inr (Some payload), w')"
    by blast
  from bind_io_InrD[OF r7] obtain sg wg where
    s8: "bot_sign_l1_action_exact L self (order_action coin asset_id ?b q sz)
           None (now_ms we) None True wf = (Inr sg, wg)" and
    r8: "bind_io (log_io INFO ''Firma EIP-712 generada correctamente'') (\<lambda>_.
           bind_io (log_io INFO ''Payload completo'') (\<lambda>_.
           return_io (Some (signed_payload
              (order_action coin asset_id ?b q sz)
              (now_ms we) sg)))) wg = (Inr (Some payload), w')"
    by blast
  from bind_io_InrD[OF r8] obtain u9 wh where
    s9: "log_io INFO ''Firma EIP-712 generada correctamente'' wg = (Inr u9, wh)" and
    r9: "bind_io (log_io INFO ''Payload completo'') (\<lambda>_.
           return_io (Some (signed_payload
              (order_action coin asset_id ?b q sz)
              (now_ms we) sg))) wh = (Inr (Some payload), w')"
    by blast
  from bind_io_InrD[OF r9] obtain u10 wi where
    s10: "log_io INFO ''Payload completo'' wh = (Inr u10, wi)" and
    r10: "return_io (Some (signed_payload (order_action coin asset_id ?b q sz) (now_ms we) sg)) wi
            = (Inr (Some payload), w')"
    by blast
  from r10 have pay: "payload = signed_payload (order_action coin asset_id ?b q sz) (now_ms we) sg"
    and wi: "w' = wi" by (auto simp: return_io_def)
  have p2: "posted [(info_url, meta_request), (info_url, meta_request)] w wb"
    using posted_trans[OF p1 reference_limit_price_posted(1)[OF s2[unfolded lr]]] by simp
  have p3: "posted [(info_url, meta_request), (info_url, meta_request), (info_url, all_mids_request)] w wc"
    using posted_trans[OF p2 tk(1)] by simp
  have p4: "posted [] wc w'"
    using pe log_io_posted[OF s7] sign_posted[OF s8] log_io_posted[OF s9] log_io_posted[OF s10] wd wi
    by (auto simp: posted_def)
  have p5: "posted [(info_url, meta_request), (info_url, meta_request), (info_url, all_mids_request)] w w'"
    using posted_trans[OF p3 p4] by simp
  have now: "now_ms we = now_ms w" using p3 pe wd by (simp add: posted_def)
  have ra: "responses wa = drop 1 (responses w)" using p1 by (simp add: posted_def)
  have rb: "responses wb = drop 2 (responses w)" using p2 by (simp add: posted_def numeral_2_eq_2)
  have r0': "responses w0 = responses w" using p0 by (simp add: posted_def)
  have sgn: "fst (bot_sign_l1_action_exact L self
                 (order_action coin asset_id ?b
                    (round_ndigits (int_times (py_round (limit / num_value tick)) tick) prec) sz)
                 None (now_ms w) None True wf) = Inr sg"
    using s8[unfolded now rt(1)] by simp
  show ?thesis
    using s1[unfolded found] r0' s2[unfolded lr refo] ra s3[unfolded tp] rb sgn
      reference_limit_price_posted(2)[OF s2[unfolded lr] refo]
      tk(2) pay[unfolded now rt(1)] rt(2)[unfolded rt(1)] p5
    by blast
qed

lemma exchange_url_not_info: "b @ ''/exchange'' \<noteq> info_url"
proof
  assume "b @ ''/exchange'' = info_url"
  then have "last (b @ ''/exchange'') = last info_url" by simp
  then show False by (simp add: info_url_def)
qed

lemma order_result_posted: "order_result code body w = (r, w') \<Longrightarrow> posted [] w w'"
  unfolding order_result_def
  by (auto simp: bind_io_def lift_res_def log_io_def return_io_def posted_def logger_def
           split: prod.splits sum.splits if_splits)

lemma submit_order_posted:
  assumes "submit_order self payload w = (r, w')"
  shows "posted [(base_url self @ ''/exchange'', payload)] w w'"
proof -
  from assms show ?thesis
    unfolding submit_order_def
  proof (cases rule: bind_ioE)
    case (raised e)
    then show ?thesis by (auto dest: requests_post_posted)
  next
    case (returned x w1)
    obtain code body where x: "x = (code, body)" by (cases x)
    from returned(2)[unfolded x prod.case] have "posted [] w1 w'"
      by (auto simp: bind_io_def log_io_def logger_def posted_def
               dest!: order_result_posted split: prod.splits sum.splits)
    with requests_post_posted[OF returned(1)] show ?thesis
      using posted_trans by fastforce
  qed
qed

lemma execute_real_order_post:
  assumes run: "execute_real_order L self coin side sz price w = (ok, w')"
      and post: "(base_url self @ ''/exchange'', payload) \<in> set (drop (length (sent w)) (sent w'))"
  shows "\<exists>w1. prepare_order L self coin side sz price w = (Inr (Some payload), w1)"
proof -
  obtain r w2 where b: "bind_io (prepare_order L self coin side sz price) (\<lambda>p.
             case p of None \<Rightarrow> return_io False
                     | Some payload \<Rightarrow> submit_order self payload) w = (r, w2)"
    by (cases "bind_io (prepare_order L self coin side sz price) (\<lambda>p.
             case p of None \<Rightarrow> return_io False
                     | Some payload \<Rightarrow> submit_order self payload) w") auto
  have s': "sent w' = sent w2"
    using run b by (auto simp: execute_real_order_def logger_def split: sum.splits)
  from b show ?thesis
  proof (cases rule: bind_ioE)
    case (raised e)
    from info_onlyD[OF info_only_prepare_order raised(1)] post s'
    show ?thesis using exchange_url_not_info by fastforce
  next
    case (returned p w1)
    from info_onlyD[OF info_only_prepare_order returned(1)] obtain ps where
      ps: "sent w1 = sent w @ ps" "\<forall>p\<in>set ps. fst p = info_url" by blast
    show ?thesis
    proof (cases p)
      case None
      with returned(2) have "w2 = w1" by (simp add: return_io_def)
      with ps post s' show ?thesis using exchange_url_not_info by fastforce
    next
      case (Some payload0)
      with returned(2) have "submit_order self payload0 w1 = (r, w2)" by simp
      from submit_order_posted[OF this] ps s'
      have "drop (length (sent w)) (sent w') = ps @ [(base_url self @ ''/exchange'', payload0)]"
        by (simp add: posted_def)
      with post ps(2) have "payload = payload0" using exchange_url_not_info by fastforce
      with returned(1) Some show ?thesis by blast
    qed
  qed
qed

section \<open>The limit price\<close>



section \<open>The size string\<close>

text \<open>
  Claim C7, as the code has it. In every order that \<open>execute_real_order\<close> posts, the
  size is the string of the integer part of the size (truncated towards zero) when the
  coin is ADA, and otherwise Python's string of the size as it was passed in; the size
  is not formatted to a precision. So 16.7 becomes \<open>16\<close> for ADA, and 0.0123 stays
  \<open>0.0123\<close> for any other coin.
\<close>

theorem order_size_string:
  assumes run: "execute_real_order L self coin side sz price w = (ok, w')"
      and post: "(base_url self @ ''/exchange'', payload) \<in> set (drop (length (sent w)) (sent w'))"
  shows "order_field payload ''s''
           = Some (PStr (if coin = ''ADA'' then int_str (dec_trunc sz) else dec_str sz))"
proof -
  from execute_real_order_post[OF run post] obtain w1 where
    "prepare_order L self coin side sz price w = (Inr (Some payload), w1)" by blast
  from prepare_order_result[OF this] obtain asset_id q sg where
    "payload = signed_payload (order_action coin asset_id (lower side = ''buy'') q sz) (now_ms w) sg"
    by blast
  then show ?thesis
    by (simp add: order_field_def signed_payload_def order_action_def py_get_def)
qed

theorem order_size_string_witness:
  "execute_real_order stub_lib example_bot ''ADA'' ''buy'' (Dec 167 1) 96
      (example_world [Response 200 (Some (PDict [(''universe'', PList [PDict [(''name'', PStr ''ADA'')]])])),
                      example_meta, Raises, accepted_answer])
     = (True, snd (execute_real_order stub_lib example_bot ''ADA'' ''buy'' (Dec 167 1) 96
      (example_world [Response 200 (Some (PDict [(''universe'', PList [PDict [(''name'', PStr ''ADA'')]])])),
                      example_meta, Raises, accepted_answer])))
   \<and> (base_url example_bot @ ''/exchange'',
        signed_payload (order_action ''ADA'' 0 True (PriceFloat (Dec 9600 2)) (Dec 167 1))
          1700000000000 example_signature)
      \<in> set (drop (length (sent (example_world [Response 200 (Some (PDict [(''universe'', PList [PDict [(''name'', PStr ''ADA'')]])])),
                      example_meta, Raises, accepted_answer])))
           (sent (snd (execute_real_order stub_lib example_bot ''ADA'' ''buy'' (Dec 167 1) 96
      (example_world [Response 200 (Some (PDict [(''universe'', PList [PDict [(''name'', PStr ''ADA'')]])])),
                      example_meta, Raises, accepted_answer])))))
   \<and> order_field (signed_payload (order_action ''ADA'' 0 True (PriceFloat (Dec 9600 2)) (Dec 167 1))
          1700000000000 example_signature) ''s'' = Some (PStr ''16'')"
proof -
  let ?w = "example_world [Response 200 (Some (PDict [(''universe'', PList [PDict [(''name'', PStr ''ADA'')]])])),
                      example_meta, Raises, accepted_answer]"
  let ?p = "signed_payload (order_action ''ADA'' 0 True (PriceFloat (Dec 9600 2)) (Dec 167 1))
          1700000000000 example_signature"
  have ok: "fst (execute_real_order stub_lib example_bot ''ADA'' ''buy'' (Dec 167 1) 96 ?w)"
    by code_simp
  then have run: "execute_real_order stub_lib example_bot ''ADA'' ''buy'' (Dec 167 1) 96 ?w
     = (True, snd (execute_real_order stub_lib example_bot ''ADA'' ''buy'' (Dec 167 1) 96 ?w))"
    by (simp add: prod_eq_iff)
  have post: "(base_url example_bot @ ''/exchange'', ?p)
      \<in> set (drop (length (sent ?w))
           (sent (snd (execute_real_order stub_lib example_bot ''ADA'' ''buy'' (Dec 167 1) 96 ?w))))"
    by code_simp
  have "int_str (dec_trunc (Dec 167 1)) = ''16''" by code_simp
  with order_size_string[OF run post] run post show ?thesis by simp
qed

lemma size_examples:
  "int_str (dec_trunc (Dec 167 1)) = ''16''" "dec_str (Dec 123 4) = ''0.0123''"
  by code_simp+

text \<open>
  Claim C7, as stated, fails: for ETH, whose metadata entry gives three size decimals,
  the size 0.0123 is posted as \<open>0.0123\<close> and not as \<open>0.012\<close>.
\<close>

theorem order_size_not_formatted_to_precision:
  "order_field (snd (last (sent (snd (execute_real_order stub_lib example_bot ''ETH'' ''buy''
       (Dec 123 4) 96 (example_world [example_meta, example_meta, Raises, accepted_answer]))))))
     ''s'' = Some (PStr ''0.0123'')
   \<and> order_field (snd (last (sent (snd (execute_real_order stub_lib example_bot ''ETH'' ''buy''
       (Dec 123 4) 96 (example_world [example_meta, example_meta, Raises, accepted_answer]))))))
     ''s'' \<noteq> Some (PStr ''0.012'')"
  by code_simp

section \<open>The answer of the exchange\<close>

lemma has_error_status_False:
  "has_error_status xs = Inr False \<Longrightarrow> list_all (\<lambda>status. \<not> has_error_field status) xs"
proof (induction xs)
  case Nil
  then show ?case by simp
next
  case (Cons x xs)
  then show ?case
    by (cases x) (auto simp: bind_res_def py_in_def has_error_field_def split: if_splits sum.splits)
qed

lemma order_result_True:
  assumes "order_result code body w = (Inr True, w')"
  shows "spec_order_accepted (Response code body)"
proof -
  from assms have c: "code = 200"
    by (auto simp: order_result_def bind_io_def log_io_def return_io_def split: if_splits)
  from assms c obtain result where b: "body = Some result"
    by (cases body) (auto simp: order_result_def bind_io_def lift_res_def response_json_def)
  from assms c b have st: "py_get result ''status'' = Inr (Some (PStr ''ok''))"
    by (auto simp: order_result_def bind_io_def lift_res_def response_json_def log_io_def
        return_io_def split: sum.splits if_splits prod.splits)
  from assms c b st have rej:
    "bind_res (py_get_default result ''response'' (PDict [])) (\<lambda>response_data.
                bind_res (py_get_default response_data ''data'' (PDict [])) (\<lambda>d.
                bind_res (py_get_default d ''statuses'' (PList [])) (\<lambda>statuses.
                  if py_truthy statuses then bind_res (py_iter statuses) has_error_status
                  else Inr False))) = Inr False"
    by (auto simp: order_result_def bind_io_def lift_res_def response_json_def log_io_def
        return_io_def split: sum.splits if_splits prod.splits)
  have "list_all (\<lambda>status. \<not> has_error_field status) (statuses_of result)"
  proof (cases "statuses_of result = []")
    case True
    then show ?thesis by simp
  next
    case False
    then obtain response_data d xs where
      g: "py_get result ''response'' = Inr (Some response_data)"
         "py_get response_data ''data'' = Inr (Some d)"
         "py_get d ''statuses'' = Inr (Some (PList xs))" and xs: "statuses_of result = xs"
      by (auto simp: statuses_of_def split: sum.splits option.splits pyval.splits)
    from False xs have "xs \<noteq> []" by simp
    with rej g have "has_error_status xs = Inr False"
      by (simp add: py_get_default_def bind_res_def py_truthy_def py_iter_def)
    then show ?thesis using xs has_error_status_False by simp
  qed
  with c b st show ?thesis by (simp add: spec_order_accepted_def)
qed

lemma submit_order_True:
  assumes "submit_order self payload w = (Inr True, w')"
  shows "\<exists>r rest. responses w = r # rest \<and> spec_order_accepted r"
proof -
  from bind_io_InrD[OF assms[unfolded submit_order_def]] obtain x w1 where
    p: "requests_post (base_url self @ ''/exchange'') payload w = (Inr x, w1)" and
    r: "(case x of (code, body) \<Rightarrow>
          bind_io (log_io INFO ''Status'') (\<lambda>_.
          bind_io (log_io INFO ''Response'') (\<lambda>_. order_result code body))) w1 = (Inr True, w')"
    by blast
  obtain code body where x: "x = (code, body)" by (cases x)
  from r[unfolded x prod.case] obtain w2 where "order_result code body w2 = (Inr True, w')"
    by (blast dest: bind_io_InrD)
  then have "spec_order_accepted (Response code body)" by (rule order_result_True)
  moreover from p x obtain rest where "responses w = Response code body # rest"
    by (auto simp: requests_post_def Let_def split: list.splits response.splits)
  ultimately show ?thesis by blast
qed

text \<open>
  The bot's \<open>execute_real_order\<close> keeps to the rule: it answers \<^verbatim>\<open>True\<close> only when
  the answer to the fourth request, the order, is successful in the specification's
  sense.
\<close>

lemma execute_real_order_success_only_if:
  assumes "execute_real_order L self coin side sz price w = (True, w')"
  shows "\<exists>r rest. drop 3 (responses w) = r # rest \<and> spec_order_accepted r"
proof -
  from assms obtain w2 where b: "bind_io (prepare_order L self coin side sz price) (\<lambda>p.
             case p of None \<Rightarrow> return_io False
                     | Some payload \<Rightarrow> submit_order self payload) w = (Inr True, w2)"
    by (auto simp: execute_real_order_def split: sum.splits prod.splits)
  from bind_io_InrD[OF b] obtain p w1 where
    pr: "prepare_order L self coin side sz price w = (Inr p, w1)" and
    s: "(case p of None \<Rightarrow> return_io False | Some payload \<Rightarrow> submit_order self payload) w1
          = (Inr True, w2)" by blast
  from s obtain payload where p: "p = Some payload" and
    sub: "submit_order self payload w1 = (Inr True, w2)"
    by (cases p) (auto simp: return_io_def)
  from prepare_order_result[OF pr[unfolded p]] have "responses w1 = drop 3 (responses w)"
    by (auto simp: posted_def numeral_3_eq_3)
  with submit_order_True[OF sub] show ?thesis by simp
qed


section \<open>Failing metadata requests\<close>







section \<open>Leverage\<close>

lemma bot_get_max_leverage_posted:
  "bot_get_max_leverage coin w = (r, w') \<Longrightarrow> posted [(info_url, meta_request)] w w'"
  unfolding bot_get_max_leverage_def
  by (auto simp: bind_io_def lift_res_def log_io_def return_io_def
           split: prod.splits sum.splits option.splits if_splits
           dest!: requests_post_posted)

lemma bot_get_max_leverage_failed:
  "fetch_failed (responses w) \<Longrightarrow> fst (bot_get_max_leverage coin w) = PInt 10"
  by (auto simp: fetch_failed_def bot_get_max_leverage_def bind_io_def requests_post_def Let_def
        log_io_def return_io_def split: list.splits response.splits)

lemma info_only_max_leverage: "info_only (lift_total (bot_get_max_leverage coin))"
  by (rule info_only_posted[OF bot_get_max_leverage_posted]) simp_all

lemma info_only_prepare_leverage: "info_only (prepare_leverage L self coin leverage)"
  unfolding prepare_leverage_def by (intro info_only_rules info_only_max_leverage)

lemma int_gt_clamp:
  assumes "int_gt leverage max_leverage = Inr over"
  shows "\<exists>l m. py_int_value (if over then max_leverage else PInt leverage) = Some l
           \<and> py_int_value max_leverage = Some m \<and> l = min leverage m"
  using assms by (cases max_leverage) (auto simp: int_gt_def py_int_value_def min_def)

lemma prepare_leverage_result:
  assumes "prepare_leverage L self coin leverage w = (Inr (Some payload), w')"
  shows "\<exists>asset_id max_leverage lev sg wa wb wf l m.
           bot_get_max_leverage coin wa = (max_leverage, wb)
         \<and> responses wa = drop 1 (responses w)
         \<and> payload = signed_payload (leverage_action asset_id lev) (now_ms w) sg
         \<and> fst (bot_sign_l1_action_exact L self (leverage_action asset_id lev)
                  None (now_ms w) None True wf) = Inr sg
         \<and> py_int_value lev = Some l \<and> py_int_value max_leverage = Some m
         \<and> l = min leverage m"
proof -
  from bind_io_InrD[OF assms[unfolded prepare_leverage_def]] obtain found wa where
    s1: "bot_get_asset_id coin w = (found, wa)" and
    r1: "(case found of
         None \<Rightarrow> bind_io (log_io ERROR ''Could not find asset ID'') (\<lambda>_. return_io None)
       | Some asset_id \<Rightarrow>
           bind_io (lift_total (bot_get_max_leverage coin)) (\<lambda>max_leverage.
           bind_io (lift_res (int_gt leverage max_leverage)) (\<lambda>over.
           bind_io (if over then log_io WARNING ''Leverage limited'' else return_io ()) (\<lambda>_.
           bind_io (\<lambda>w. (Inr (now_ms w), w)) (\<lambda>nonce.
           bind_io (bot_sign_l1_action_exact L self
                      (leverage_action asset_id (if over then max_leverage else PInt leverage))
                      None nonce None True) (\<lambda>sg.
           bind_io (log_io INFO ''Setting leverage'') (\<lambda>_.
           return_io (Some (signed_payload
              (leverage_action asset_id (if over then max_leverage else PInt leverage))
              nonce sg))))))))) wa = (Inr (Some payload), w')"
    by (blast dest: lift_total_D)
  have p1: "posted [(info_url, meta_request)] w wa" by (rule bot_get_asset_id_posted[OF s1])
  obtain asset_id where found: "found = Some asset_id"
    using r1 by (cases found) (auto simp: bind_io_def log_io_def return_io_def)
  from bind_io_InrD[OF r1[unfolded found option.case]] obtain max_leverage wb where
    s2: "bot_get_max_leverage coin wa = (max_leverage, wb)" and
    r2: "bind_io (lift_res (int_gt leverage max_leverage)) (\<lambda>over.
           bind_io (if over then log_io WARNING ''Leverage limited'' else return_io ()) (\<lambda>_.
           bind_io (\<lambda>w. (Inr (now_ms w), w)) (\<lambda>nonce.
           bind_io (bot_sign_l1_action_exact L self
                      (leverage_action asset_id (if over then max_leverage else PInt leverage))
                      None nonce None True) (\<lambda>sg.
           bind_io (log_io INFO ''Setting leverage'') (\<lambda>_.
           return_io (Some (signed_payload
              (leverage_action asset_id (if over then max_leverage else PInt leverage))
              nonce sg))))))) wb = (Inr (Some payload), w')"
    by (blast dest: lift_total_D)
  have p2: "posted [(info_url, meta_request)] wa wb" by (rule bot_get_max_leverage_posted[OF s2])
  from bind_io_InrD[OF r2] obtain over wc where
    s3: "lift_res (int_gt leverage max_leverage) wb = (Inr over, wc)" and
    r3: "bind_io (if over then log_io WARNING ''Leverage limited'' else return_io ()) (\<lambda>_.
           bind_io (\<lambda>w. (Inr (now_ms w), w)) (\<lambda>nonce.
           bind_io (bot_sign_l1_action_exact L self
                      (leverage_action asset_id (if over then max_leverage else PInt leverage))
                      None nonce None True) (\<lambda>sg.
           bind_io (log_io INFO ''Setting leverage'') (\<lambda>_.
           return_io (Some (signed_payload
              (leverage_action asset_id (if over then max_leverage else PInt leverage))
              nonce sg)))))) wc = (Inr (Some payload), w')"
    by blast
  from s3 have gt: "int_gt leverage max_leverage = Inr over" and wc: "wc = wb"
    by (auto simp: lift_res_def)
  let ?lev = "if over then max_leverage else PInt leverage"
  from bind_io_InrD[OF r3] obtain u4 wd where
    s4: "(if over then log_io WARNING ''Leverage limited'' else return_io ()) wc = (Inr u4, wd)" and
    r4: "bind_io (\<lambda>w. (Inr (now_ms w), w)) (\<lambda>nonce.
           bind_io (bot_sign_l1_action_exact L self (leverage_action asset_id ?lev)
                      None nonce None True) (\<lambda>sg.
           bind_io (log_io INFO ''Setting leverage'') (\<lambda>_.
           return_io (Some (signed_payload (leverage_action asset_id ?lev) nonce sg))))) wd
          = (Inr (Some payload), w')"
    by blast
  from s4 have p4: "now_ms wd = now_ms wc"
    by (auto simp: log_io_def logger_def return_io_def split: if_splits)
  from bind_io_InrD[OF r4] have
    r5: "bind_io (bot_sign_l1_action_exact L self (leverage_action asset_id ?lev)
                      None (now_ms wd) None True) (\<lambda>sg.
           bind_io (log_io INFO ''Setting leverage'') (\<lambda>_.
           return_io (Some (signed_payload (leverage_action asset_id ?lev) (now_ms wd) sg)))) wd
          = (Inr (Some payload), w')"
    by auto
  from bind_io_InrD[OF r5] obtain sg we where
    s6: "bot_sign_l1_action_exact L self (leverage_action asset_id ?lev)
           None (now_ms wd) None True wd = (Inr sg, we)" and
    r6: "bind_io (log_io INFO ''Setting leverage'') (\<lambda>_.
           return_io (Some (signed_payload (leverage_action asset_id ?lev) (now_ms wd) sg))) we
          = (Inr (Some payload), w')"
    by blast
  from bind_io_InrD[OF r6] have
    pay: "payload = signed_payload (leverage_action asset_id ?lev) (now_ms wd) sg"
    by (auto simp: return_io_def)
  have now: "now_ms wd = now_ms w" using p1 p2 p4 wc by (simp add: posted_def)
  have ra: "responses wa = drop 1 (responses w)" using p1 by (simp add: posted_def)
  have sgn: "fst (bot_sign_l1_action_exact L self (leverage_action asset_id ?lev)
                  None (now_ms w) None True wd) = Inr sg"
    using s6 now by simp
  from int_gt_clamp[OF gt] obtain l m where
    "py_int_value ?lev = Some l" "py_int_value max_leverage = Some m" "l = min leverage m"
    by blast
  with s2 ra pay[unfolded now] sgn show ?thesis by blast
qed

lemma submit_leverage_posted:
  assumes "submit_leverage self payload w = (r, w')"
  shows "posted [(base_url self @ ''/exchange'', payload)] w w'"
  using assms unfolding submit_leverage_def
proof (cases rule: bind_ioE)
  case (raised e)
  then show ?thesis by (auto dest: requests_post_posted)
next
  case (returned x w1)
  obtain code body where x: "x = (code, body)" by (cases x)
  from returned(2)[unfolded x prod.case] have "posted [] w1 w'"
    by (auto simp: bind_io_def log_io_def logger_def posted_def lift_res_def return_io_def
             split: prod.splits sum.splits if_splits)
  with requests_post_posted[OF returned(1)] show ?thesis
    using posted_trans by fastforce
qed

lemma set_leverage_post:
  assumes run: "set_leverage L self coin leverage w = (ok, w')"
      and post: "(base_url self @ ''/exchange'', payload) \<in> set (drop (length (sent w)) (sent w'))"
  shows "\<exists>w1. prepare_leverage L self coin leverage w = (Inr (Some payload), w1)"
proof -
  obtain r w2 where b: "bind_io (prepare_leverage L self coin leverage) (\<lambda>p.
             case p of None \<Rightarrow> return_io False
                     | Some payload \<Rightarrow> submit_leverage self payload) w = (r, w2)"
    by (cases "bind_io (prepare_leverage L self coin leverage) (\<lambda>p.
             case p of None \<Rightarrow> return_io False
                     | Some payload \<Rightarrow> submit_leverage self payload) w") auto
  have s': "sent w' = sent w2"
    using run b by (auto simp: set_leverage_def logger_def split: sum.splits)
  from b show ?thesis
  proof (cases rule: bind_ioE)
    case (raised e)
    from info_onlyD[OF info_only_prepare_leverage raised(1)] post s'
    show ?thesis using exchange_url_not_info by fastforce
  next
    case (returned p w1)
    from info_onlyD[OF info_only_prepare_leverage returned(1)] obtain ps where
      ps: "sent w1 = sent w @ ps" "\<forall>p\<in>set ps. fst p = info_url" by blast
    show ?thesis
    proof (cases p)
      case None
      with returned(2) have "w2 = w1" by (simp add: return_io_def)
      with ps post s' show ?thesis using exchange_url_not_info by fastforce
    next
      case (Some payload0)
      with returned(2) have "submit_leverage self payload0 w1 = (r, w2)" by simp
      from submit_leverage_posted[OF this] ps s'
      have "drop (length (sent w)) (sent w') = ps @ [(base_url self @ ''/exchange'', payload0)]"
        by (simp add: posted_def)
      with post ps(2) have "payload = payload0" using exchange_url_not_info by fastforce
      with returned(1) Some show ?thesis by blast
    qed
  qed
qed

text \<open>
  Claim C10. Whenever \<open>set_leverage\<close> posts to the exchange, the payload is the signed
  \<open>updateLeverage\<close> action whose leverage is the smaller one of the requested leverage
  and the maximum that \<open>_get_max_leverage\<close> obtained from the second metadata answer;
  that maximum is 10 when the request failed.
\<close>

theorem set_leverage_clamped:
  assumes run: "set_leverage L self coin leverage w = (ok, w')"
      and post: "(base_url self @ ''/exchange'', payload) \<in> set (drop (length (sent w)) (sent w'))"
  shows "\<exists>asset_id max_leverage lev sg wa wb wf l m.
           bot_get_max_leverage coin wa = (max_leverage, wb)
         \<and> responses wa = drop 1 (responses w)
         \<and> (fetch_failed (responses wa) \<longrightarrow> max_leverage = PInt 10)
         \<and> payload = signed_payload (leverage_action asset_id lev) (now_ms w) sg
         \<and> fst (bot_sign_l1_action_exact L self (leverage_action asset_id lev)
                  None (now_ms w) None True wf) = Inr sg
         \<and> py_int_value lev = Some l \<and> py_int_value max_leverage = Some m
         \<and> l = min leverage m"
proof -
  from set_leverage_post[OF run post] obtain w1 where
    "prepare_leverage L self coin leverage w = (Inr (Some payload), w1)" by blast
  from prepare_leverage_result[OF this] obtain asset_id max_leverage lev sg wa wb wf l m where
    f: "bot_get_max_leverage coin wa = (max_leverage, wb)"
       "responses wa = drop 1 (responses w)"
       "payload = signed_payload (leverage_action asset_id lev) (now_ms w) sg"
       "fst (bot_sign_l1_action_exact L self (leverage_action asset_id lev)
                  None (now_ms w) None True wf) = Inr sg"
       "py_int_value lev = Some l" "py_int_value max_leverage = Some m" "l = min leverage m"
    by blast
  have "fetch_failed (responses wa) \<longrightarrow> max_leverage = PInt 10"
    using bot_get_max_leverage_failed[of wa coin] f(1) by simp
  with f show ?thesis by blast
qed

theorem set_leverage_clamped_witness:
  "set_leverage stub_lib example_bot ''ETH'' 50
      (example_world [example_meta, example_meta, accepted_answer])
     = (True, snd (set_leverage stub_lib example_bot ''ETH'' 50
      (example_world [example_meta, example_meta, accepted_answer])))
   \<and> (base_url example_bot @ ''/exchange'',
        signed_payload (leverage_action 1 (PInt 25)) 1700000000000 example_signature)
      \<in> set (drop (length (sent (example_world [example_meta, example_meta, accepted_answer])))
           (sent (snd (set_leverage stub_lib example_bot ''ETH'' 50
              (example_world [example_meta, example_meta, accepted_answer])))))
   \<and> (\<exists>asset_id max_leverage lev sg wa wb wf l m.
           bot_get_max_leverage ''ETH'' wa = (max_leverage, wb)
         \<and> responses wa
             = drop 1 (responses (example_world [example_meta, example_meta, accepted_answer]))
         \<and> (fetch_failed (responses wa) \<longrightarrow> max_leverage = PInt 10)
         \<and> signed_payload (leverage_action 1 (PInt 25)) 1700000000000 example_signature
             = signed_payload (leverage_action asset_id lev)
                 (now_ms (example_world [example_meta, example_meta, accepted_answer])) sg
         \<and> fst (bot_sign_l1_action_exact stub_lib example_bot (leverage_action asset_id lev)
                  None (now_ms (example_world [example_meta, example_meta, accepted_answer]))
                  None True wf) = Inr sg
         \<and> py_int_value lev = Some l \<and> py_int_value max_leverage = Some m
         \<and> l = min 50 m)"
proof -
  let ?w = "example_world [example_meta, example_meta, accepted_answer]"
  have ok: "fst (set_leverage stub_lib example_bot ''ETH'' 50 ?w)"
    by code_simp
  then have run: "set_leverage stub_lib example_bot ''ETH'' 50 ?w
     = (True, snd (set_leverage stub_lib example_bot ''ETH'' 50 ?w))"
    by (simp add: prod_eq_iff)
  have post: "(base_url example_bot @ ''/exchange'',
        signed_payload (leverage_action 1 (PInt 25)) 1700000000000 example_signature)
      \<in> set (drop (length (sent ?w))
           (sent (snd (set_leverage stub_lib example_bot ''ETH'' 50 ?w))))"
    by code_simp
  from set_leverage_clamped[OF run post] run post show ?thesis by blast
qed

end
